theory Spec2Isabelle
  imports Main "HOL-Library.Word" "HOL-Library.Sublist"
begin

section \<open>JavaScript strings\<close>

text \<open>
  A JavaScript string is a sequence of 16-bit code units. The model keeps one \<open>char\<close> per
  code unit and so covers the strings whose code units are below 256; \<open>length\<close> is the
  \<open>.length\<close> of such a string.
\<close>

definition js_whitespace :: "char \<Rightarrow> bool" where
  \<comment> \<open>the code units below 256 that \<open>String.prototype.trim\<close> strips: TAB, LF, VT, FF, CR, SP, NBSP\<close>
  "js_whitespace c = (c \<in> set [CHR 0x09, CHR 0x0A, CHR 0x0B, CHR 0x0C, CHR 0x0D, CHR 0x20, CHR 0xA0])"

definition trim :: "string \<Rightarrow> string" where
  "trim s = rev (dropWhile js_whitespace (rev (dropWhile js_whitespace s)))"

definition startsWith :: "string \<Rightarrow> string \<Rightarrow> bool" where
  "startsWith s p = (take (length p) s = p)"

definition endsWith :: "string \<Rightarrow> string \<Rightarrow> bool" where
  "endsWith s p = (length p \<le> length s \<and> drop (length s - length p) s = p)"

function replace_all :: "string \<Rightarrow> string \<Rightarrow> string \<Rightarrow> string" where
  \<comment> \<open>\<open>s.replace(/pat/g, rep)\<close> for a pattern that is a fixed text: leftmost matches, not overlapping\<close>
  "replace_all pat rep [] = []"
| "replace_all pat rep (c # cs) =
     (if pat \<noteq> [] \<and> startsWith (c # cs) pat
      then rep @ replace_all pat rep (drop (length pat - 1) cs)
      else c # replace_all pat rep cs)"
  by pat_completeness auto
termination
  by (relation "measure (\<lambda>(pat, rep, s). length s)") auto

definition normalizePrompt :: "string \<Rightarrow> string" where
  \<comment> \<open>the three patterns: backslash r backslash n; backslash n; CR LF\<close>
  "normalizePrompt s =
     trim (replace_all [CHR 0x0D, CHR 0x0A] [CHR 0x0A]
            (replace_all [CHR 0x5C, CHR ''n''] [CHR 0x0A]
              (replace_all [CHR 0x5C, CHR ''r'', CHR 0x5C, CHR ''n''] [CHR 0x0A] s)))"

definition canonicalize :: "char \<Rightarrow> char" where
  \<comment> \<open>case folding of a regular expression with flag \<open>i\<close> and without flag \<open>u\<close>: a code unit
      from 128 on never folds to a letter below 128, so for the match of an ASCII pattern
      only the folding of \<open>a\<close> to \<open>z\<close> matters\<close>
  "canonicalize c =
     (let n = (of_char c :: nat) in if 97 \<le> n \<and> n \<le> 122 then char_of (n - 32) else c)"

fun regex_test_ci :: "string \<Rightarrow> string \<Rightarrow> bool" where
  \<comment> \<open>\<open>/pat/i.test(s)\<close> for a pattern that is a fixed text\<close>
  "regex_test_ci pat [] = (pat = [])"
| "regex_test_ci pat (c # cs) =
     (map canonicalize (take (length pat) (c # cs)) = map canonicalize pat
      \<or> regex_test_ci pat cs)"

definition is_digit :: "char \<Rightarrow> bool" where
  "is_digit c = (c \<in> set ''0123456789'')"

definition all_digits :: "string \<Rightarrow> bool" where
  \<comment> \<open>\<open>/^\d+$/.test(k)\<close>\<close>
  "all_digits k = (k \<noteq> [] \<and> list_all is_digit k)"

fun join :: "string \<Rightarrow> string list \<Rightarrow> string" where
  "join sep [] = []"
| "join sep [x] = x"
| "join sep (x # y # ys) = x @ sep @ join sep (y # ys)"

fun dec :: "nat \<Rightarrow> string" where
  \<comment> \<open>the decimal text of an array index\<close>
  "dec n = (if n < 10 then [''0123456789'' ! n] else dec (n div 10) @ [''0123456789'' ! (n mod 10)])"

declare dec.simps [simp del]

section \<open>JavaScript values read from JSON\<close>

text \<open>
  The values \<open>JSON.parse\<close> produces. An object is the list of its own properties in the
  order of \<open>Object.keys\<close>. A number is kept as the text \<open>String(n)\<close> gives for it: the
  program reads a number only through \<open>String\<close> and \<open>typeof\<close>.
\<close>

datatype json =
    JNull
  | JBool bool
  | JNum string
  | JStr string
  | JArr "json list"
  | JObj "(string \<times> json) list"

datatype error = FormatError | TypeError

text \<open>
  \<open>JSON.parse\<close> is the platform's. The functions below take it as the parameter \<open>jp\<close>:
  \<open>None\<close> is the thrown \<open>SyntaxError\<close>.
\<close>

type_synonym json_parser = "string \<Rightarrow> json option"

definition safeJsonParse :: "json_parser \<Rightarrow> string \<Rightarrow> json" where
  "safeJsonParse jp s = (case jp s of None \<Rightarrow> JNull | Some v \<Rightarrow> v)"

fun is_object :: "json \<Rightarrow> bool" where
  \<comment> \<open>\<open>v && typeof v === "object"\<close>: \<open>null\<close> is falsy, an array has type "object"\<close>
  "is_object (JObj kvs) = True"
| "is_object (JArr xs) = True"
| "is_object v = False"

fun js_get :: "json \<Rightarrow> string \<Rightarrow> json option" where
  \<comment> \<open>\<open>v.k\<close> for the property names the program reads (none is an array index, \<open>length\<close>
      or a name of a prototype); \<open>None\<close> is \<open>undefined\<close>\<close>
  "js_get (JObj kvs) k = map_of kvs k"
| "js_get v k = None"

fun nullish_or :: "json option \<Rightarrow> json \<Rightarrow> json" where
  \<comment> \<open>\<open>x ?? d\<close>\<close>
  "nullish_or None d = d"
| "nullish_or (Some JNull) d = d"
| "nullish_or (Some v) d = v"

fun optional_get :: "json option \<Rightarrow> string \<Rightarrow> json option" where
  \<comment> \<open>\<open>x?.k\<close>\<close>
  "optional_get None k = None"
| "optional_get (Some JNull) k = None"
| "optional_get (Some v) k = js_get v k"

fun typeof_string :: "json option \<Rightarrow> string option" where
  \<comment> \<open>the string when \<open>typeof x === "string"\<close>\<close>
  "typeof_string (Some (JStr s)) = Some s"
| "typeof_string x = None"

fun object_keys :: "json \<Rightarrow> string list" where
  "object_keys (JObj kvs) = map fst kvs"
| "object_keys (JArr xs) = map dec [0..<length xs]"
| "object_keys v = []"

fun object_values :: "json \<Rightarrow> json list" where
  \<comment> \<open>\<open>Object.keys(v).map(k => v[k])\<close>\<close>
  "object_values (JObj kvs) = map snd kvs"
| "object_values (JArr xs) = xs"
| "object_values v = []"

fun sequence :: "(error + 'a) list \<Rightarrow> error + 'a list" where
  "sequence [] = Inr []"
| "sequence (Inl e # rs) = Inl e"
| "sequence (Inr x # rs) = (case sequence rs of Inl e \<Rightarrow> Inl e | Inr xs \<Rightarrow> Inr (x # xs))"

fun js_String :: "json \<Rightarrow> error + string" where
  \<comment> \<open>\<open>String(v)\<close>. An object that has an own property \<open>toString\<close> (a JSON value, so not
      callable) has no primitive value: \<open>TypeError\<close>. An array is joined with commas,
      \<open>null\<close> elements as the empty text.\<close>
  "js_String JNull = Inr ''null''"
| "js_String (JBool b) = Inr (if b then ''true'' else ''false'')"
| "js_String (JNum r) = Inr r"
| "js_String (JStr s) = Inr s"
| "js_String (JObj kvs) =
     (if ''toString'' \<in> set (map fst kvs) then Inl TypeError else Inr ''[object Object]'')"
| "js_String (JArr xs) =
     (case sequence (map (\<lambda>x. case x of JNull \<Rightarrow> Inr [] | _ \<Rightarrow> js_String x) xs) of
        Inl e \<Rightarrow> Inl e
      | Inr ss \<Rightarrow> Inr (join '','' ss))"

section \<open>A reference parser for JSON texts\<close>

text \<open>
  An executable instance of the parameter \<open>jp\<close>, after the grammar of JSON (ECMA-404) and
  the way \<open>JSON.parse\<close> builds an object: a repeated name keeps its first place and its
  last value, and the names that are array indices come first, in ascending order. It is
  used to run the functions on concrete texts; the general theorems hold for every parser.
  A number is kept as its literal, which is the text \<open>String\<close> gives when the literal is
  written the way \<open>String\<close> writes it (\<open>7\<close>, \<open>0.5\<close>). An escape \<open>\uXXXX\<close> from 256 on is
  outside the code units modelled and is refused.
\<close>

definition json_ws :: "char \<Rightarrow> bool" where
  "json_ws c = (c \<in> set [CHR 0x20, CHR 0x09, CHR 0x0A, CHR 0x0D])"

definition hex_val :: "char \<Rightarrow> nat option" where
  "hex_val c = map_of (zip ''0123456789abcdefABCDEF''
                 [0, 1, 2, 3, 4, 5, 6, 7, 8, 9, 10, 11, 12, 13, 14, 15, 10, 11, 12, 13, 14, 15]) c"

definition hex4 :: "string \<Rightarrow> nat option" where
  "hex4 s = (case map hex_val s of
               [Some a, Some b, Some c, Some d] \<Rightarrow> Some (((a * 16 + b) * 16 + c) * 16 + d)
             | _ \<Rightarrow> None)"

definition unescape :: "char \<Rightarrow> char option" where
  "unescape e = map_of [(CHR 0x22, CHR 0x22), (CHR 0x5C, CHR 0x5C), (CHR ''/'', CHR ''/''),
                        (CHR ''b'', CHR 0x08), (CHR ''f'', CHR 0x0C), (CHR ''n'', CHR 0x0A),
                        (CHR ''r'', CHR 0x0D), (CHR ''t'', CHR 0x09)] e"

function parse_string_body :: "string \<Rightarrow> (string \<times> string) option" where
  \<comment> \<open>the text after an opening quote: the string's value and what follows its closing quote\<close>
  "parse_string_body [] = None"
| "parse_string_body (c # cs) =
     (if c = CHR 0x22 then Some ([], cs)
      else if c = CHR 0x5C then
        (case cs of
           [] \<Rightarrow> None
         | e # r \<Rightarrow>
             if e = CHR ''u'' then
               (case hex4 (take 4 r) of
                  None \<Rightarrow> None
                | Some n \<Rightarrow>
                    if n < 256
                    then map_option (\<lambda>(s, rest). (char_of n # s, rest)) (parse_string_body (drop 4 r))
                    else None)
             else
               (case unescape e of
                  None \<Rightarrow> None
                | Some x \<Rightarrow> map_option (\<lambda>(s, rest). (x # s, rest)) (parse_string_body r)))
      else if (of_char c :: nat) < 32 then None
      else map_option (\<lambda>(s, rest). (c # s, rest)) (parse_string_body cs))"
  by pat_completeness auto
termination
  by (relation "measure length") auto

definition take_digits :: "string \<Rightarrow> string \<times> string" where
  "take_digits s = (takeWhile is_digit s, dropWhile is_digit s)"

definition parse_number :: "string \<Rightarrow> (string \<times> string) option" where
  \<comment> \<open>the longest number literal at the head of the text, and the rest\<close>
  "parse_number s =
     (let (sign, s1) = (if startsWith s ''-'' then (''-'', drop 1 s) else ([], s));
          (ip, s2) = take_digits s1
      in if ip = [] \<or> (length ip > 1 \<and> hd ip = CHR ''0'') then None
         else
           let (frac, s3) =
                 (if startsWith s2 ''.'' \<and> fst (take_digits (drop 1 s2)) \<noteq> []
                  then (CHR ''.'' # fst (take_digits (drop 1 s2)), snd (take_digits (drop 1 s2)))
                  else ([], s2));
               e1 = drop 1 s3;
               (esign, e2) = (if startsWith e1 ''+'' \<or> startsWith e1 ''-''
                              then (take 1 e1, drop 1 e1) else ([], e1));
               (expo, s4) =
                 (if (startsWith s3 ''e'' \<or> startsWith s3 ''E'') \<and> fst (take_digits e2) \<noteq> []
                  then (take 1 s3 @ esign @ fst (take_digits e2), snd (take_digits e2))
                  else ([], s3))
           in Some (sign @ ip @ frac @ expo, s4))"

fun put_property :: "string \<Rightarrow> json \<Rightarrow> (string \<times> json) list \<Rightarrow> (string \<times> json) list" where
  "put_property k v [] = [(k, v)]"
| "put_property k v ((k', v') # kvs) =
     (if k = k' then (k', v) # kvs else (k', v') # put_property k v kvs)"

definition index_value :: "string \<Rightarrow> int" where
  "index_value k = foldl (\<lambda>n c. 10 * n + (of_char c - 48)) 0 k"

definition is_array_index :: "string \<Rightarrow> bool" where
  "is_array_index k =
     (all_digits k \<and> (k = ''0'' \<or> hd k \<noteq> CHR ''0'') \<and> index_value k < 2 ^ 32 - 1)"

definition own_properties :: "(string \<times> json) list \<Rightarrow> (string \<times> json) list" where
  "own_properties members =
     (let kvs = foldl (\<lambda>acc (k, v). put_property k v acc) [] members
      in sort_key (\<lambda>(k, v). index_value k) (filter (\<lambda>(k, v). is_array_index k) kvs)
         @ filter (\<lambda>(k, v). \<not> is_array_index k) kvs)"

fun parse_value :: "nat \<Rightarrow> string \<Rightarrow> (json \<times> string) option"
  and parse_elements :: "nat \<Rightarrow> string \<Rightarrow> (json list \<times> string) option"
  and parse_members :: "nat \<Rightarrow> string \<Rightarrow> ((string \<times> json) list \<times> string) option" where
  "parse_value 0 s = None"
| "parse_value (Suc n) s =
     (case dropWhile json_ws s of
        [] \<Rightarrow> None
      | c # cs \<Rightarrow>
          if c = CHR ''{'' then
            (if startsWith (dropWhile json_ws cs) ''}''
             then Some (JObj [], drop 1 (dropWhile json_ws cs))
             else map_option (\<lambda>(kvs, r). (JObj (own_properties kvs), r)) (parse_members n cs))
          else if c = CHR ''['' then
            (if startsWith (dropWhile json_ws cs) '']''
             then Some (JArr [], drop 1 (dropWhile json_ws cs))
             else map_option (\<lambda>(xs, r). (JArr xs, r)) (parse_elements n cs))
          else if c = CHR 0x22 then
            map_option (\<lambda>(x, r). (JStr x, r)) (parse_string_body cs)
          else if startsWith (c # cs) ''true'' then Some (JBool True, drop 4 (c # cs))
          else if startsWith (c # cs) ''false'' then Some (JBool False, drop 5 (c # cs))
          else if startsWith (c # cs) ''null'' then Some (JNull, drop 4 (c # cs))
          else map_option (\<lambda>(x, r). (JNum x, r)) (parse_number (c # cs)))"
| "parse_elements 0 s = None"
| "parse_elements (Suc n) s =
     (case parse_value n s of
        None \<Rightarrow> None
      | Some (v, r) \<Rightarrow>
          (case dropWhile json_ws r of
             [] \<Rightarrow> None
           | d # r' \<Rightarrow>
               if d = CHR '','' then map_option (\<lambda>(xs, t). (v # xs, t)) (parse_elements n r')
               else if d = CHR '']'' then Some ([v], r')
               else None))"
| "parse_members 0 s = None"
| "parse_members (Suc n) s =
     (case dropWhile json_ws s of
        [] \<Rightarrow> None
      | q # r \<Rightarrow>
          if q \<noteq> CHR 0x22 then None
          else
            (case parse_string_body r of
               None \<Rightarrow> None
             | Some (k, r1) \<Rightarrow>
                 if \<not> startsWith (dropWhile json_ws r1) '':'' then None
                 else
                   (case parse_value n (drop 1 (dropWhile json_ws r1)) of
                      None \<Rightarrow> None
                    | Some (v, r3) \<Rightarrow>
                        (case dropWhile json_ws r3 of
                           [] \<Rightarrow> None
                         | d # r4 \<Rightarrow>
                             if d = CHR '','' then
                               map_option (\<lambda>(kvs, t). ((k, v) # kvs, t)) (parse_members n r4)
                             else if d = CHR ''}'' then Some ([(k, v)], r4)
                             else None))))"

definition json_parse :: json_parser where
  \<comment> \<open>two units of fuel for each character are enough for the nesting a text can have\<close>
  "json_parse s =
     (case parse_value (2 * length s + 2) s of
        None \<Rightarrow> None
      | Some (v, r) \<Rightarrow> if dropWhile json_ws r = [] then Some v else None)"

section \<open>Prompt extraction\<close>

definition isPromptWrapperJson :: "json_parser \<Rightarrow> string \<Rightarrow> bool" where
  "isPromptWrapperJson jp s =
     (let t = trim s in
      if \<not> (startsWith t ''{'' \<and> endsWith t ''}'') then False
      else (case safeJsonParse jp t of
              JObj kvs \<Rightarrow>
                if length (map fst kvs) \<noteq> 1 then False
                else if map fst kvs ! 0 \<noteq> ''prompt'' then False
                else typeof_string (js_get (JObj kvs) ''prompt'') \<noteq> None
            | _ \<Rightarrow> False))"

fun insert_by :: "('a \<Rightarrow> 'a \<Rightarrow> int) \<Rightarrow> 'a \<Rightarrow> 'a list \<Rightarrow> 'a list" where
  "insert_by cmp x [] = [x]"
| "insert_by cmp x (y # ys) = (if cmp x y \<le> 0 then x # y # ys else y # insert_by cmp x ys)"

definition js_sort :: "('a \<Rightarrow> 'a \<Rightarrow> int) \<Rightarrow> 'a list \<Rightarrow> 'a list" where
  \<comment> \<open>\<open>Array.prototype.sort\<close> with a comparator: a stable sort\<close>
  "js_sort cmp xs = foldr (insert_by cmp) xs []"

definition by_length_desc :: "string \<Rightarrow> string \<Rightarrow> int" where
  "by_length_desc a b = int (length b) - int (length a)"

definition cleaned_candidates :: "json_parser \<Rightarrow> string list \<Rightarrow> string list" where
  "cleaned_candidates jp candidates =
     filter (\<lambda>c. \<not> isPromptWrapperJson jp c) (filter (\<lambda>c. c \<noteq> []) (map trim candidates))"

definition pickBestString :: "json_parser \<Rightarrow> string list \<Rightarrow> string option" where
  "pickBestString jp candidates =
     (let cleaned = cleaned_candidates jp candidates in
      if length cleaned = 0 then None
      else (case js_sort by_length_desc cleaned of [] \<Rightarrow> None | c # cs \<Rightarrow> Some c))"

definition nonblank_string :: "json option \<Rightarrow> string list" where
  \<comment> \<open>\<open>if (typeof x === "string" && x.trim().length > 0) candidates.push(x)\<close>\<close>
  "nonblank_string x =
     (case typeof_string x of
        Some s \<Rightarrow> if length (trim s) > 0 then [s] else []
      | None \<Rightarrow> [])"

definition looksPositive :: "string \<Rightarrow> string \<Rightarrow> bool" where
  "looksPositive classType title =
     (regex_test_ci ''positive'' classType \<or> regex_test_ci ''positive'' title
      \<or> title = ''Positive'')"

definition node_candidates :: "json \<Rightarrow> error + string list" where
  \<comment> \<open>one turn of the loop over the nodes: what it pushes, or the error it throws\<close>
  "node_candidates node =
     (if \<not> is_object node then Inr []
      else (case js_String (nullish_or (js_get node ''class_type'') (JStr [])) of
              Inl e \<Rightarrow> Inl e
            | Inr classType \<Rightarrow>
        (case js_String (nullish_or (optional_get (js_get node ''_meta'') ''title'') (JStr [])) of
              Inl e \<Rightarrow> Inl e
            | Inr title \<Rightarrow>
                let inputs = nullish_or (js_get node ''inputs'') (JObj []) in
                Inr (nonblank_string (js_get inputs ''positive'')
                     @ (if looksPositive classType title
                        then nonblank_string (js_get inputs ''text'')
                             @ nonblank_string (js_get inputs ''prompt'')
                        else [])))))"

fun workflow_candidates :: "json list \<Rightarrow> string list \<Rightarrow> error + string list" where
  "workflow_candidates [] candidates = Inr candidates"
| "workflow_candidates (node # nodes) candidates =
     (case node_candidates node of
        Inl e \<Rightarrow> Inl e
      | Inr cs \<Rightarrow> workflow_candidates nodes (candidates @ cs))"

fun truthy :: "string option \<Rightarrow> bool" where
  \<comment> \<open>\<open>if (p)\<close> for \<open>p: string | null\<close>: the empty string is falsy\<close>
  "truthy None = False"
| "truthy (Some s) = (s \<noteq> [])"

definition extractFromRawWorkflow :: "json_parser \<Rightarrow> string \<Rightarrow> error + string option" where
  "extractFromRawWorkflow jp rawWorkflowString =
     (let wf = safeJsonParse jp rawWorkflowString in
      if \<not> is_object wf then Inr None
      else (case workflow_candidates (object_values wf) [] of
              Inl e \<Rightarrow> Inl e
            | Inr candidates \<Rightarrow>
                let best = pickBestString jp candidates in
                Inr (if truthy best then map_option normalizePrompt best else None)))"

fun scan_keys :: "json_parser \<Rightarrow> json \<Rightarrow> string list \<Rightarrow> string option" where
  \<comment> \<open>the loop over the other field names\<close>
  "scan_keys jp meta [] = None"
| "scan_keys jp meta (key # keys) =
     (case typeof_string (js_get meta key) of
        Some v \<Rightarrow>
          if length (trim v) > 0 \<and> \<not> isPromptWrapperJson jp v then Some (normalizePrompt v)
          else scan_keys jp meta keys
      | None \<Rightarrow> scan_keys jp meta keys)"

definition metadata_fields :: "json_parser \<Rightarrow> json \<Rightarrow> string option" where
  \<comment> \<open>steps 2 and 3 of \<open>extractFromMetadataObject\<close>\<close>
  "metadata_fields jp meta =
     (case typeof_string (js_get meta ''prompt'') of
        Some p \<Rightarrow>
          if length (trim p) > 0 \<and> length (trim p) > 50 \<and> \<not> isPromptWrapperJson jp p
          then Some (normalizePrompt p)
          else scan_keys jp meta [''positive'', ''positive_prompt'', ''Prompt'', ''Positive prompt'']
      | None \<Rightarrow>
          scan_keys jp meta [''positive'', ''positive_prompt'', ''Prompt'', ''Positive prompt''])"

definition extractFromMetadataObject :: "json_parser \<Rightarrow> json \<Rightarrow> error + string option" where
  "extractFromMetadataObject jp meta =
     (case typeof_string (js_get meta ''raw_workflow'') of
        Some w \<Rightarrow>
          (case extractFromRawWorkflow jp w of
             Inl e \<Rightarrow> Inl e
           | Inr p \<Rightarrow> if truthy p then Inr p else Inr (metadata_fields jp meta))
      | None \<Rightarrow> Inr (metadata_fields jp meta))"

record extraction =
  prompt :: "string option"
  debugSource :: "string option"

fun phase_A :: "json_parser \<Rightarrow> string list \<Rightarrow> error + string option" where
  "phase_A jp [] = Inr None"
| "phase_A jp (blob # blobs) =
     (let maybe = safeJsonParse jp blob in
      if is_object maybe
      then (case extractFromMetadataObject jp maybe of
              Inl e \<Rightarrow> Inl e
            | Inr p \<Rightarrow> if truthy p then Inr p else phase_A jp blobs)
      else phase_A jp blobs)"

fun phase_B :: "json_parser \<Rightarrow> string list \<Rightarrow> error + string option" where
  "phase_B jp [] = Inr None"
| "phase_B jp (blob # blobs) =
     (let maybe = safeJsonParse jp blob in
      if is_object maybe \<and> list_ex all_digits (object_keys maybe)
      then (case extractFromRawWorkflow jp blob of
              Inl e \<Rightarrow> Inl e
            | Inr p \<Rightarrow> if truthy p then Inr p else phase_B jp blobs)
      else phase_B jp blobs)"

definition phase_C :: "json_parser \<Rightarrow> string list \<Rightarrow> string option" where
  "phase_C jp textBlobs =
     (let longOnes = filter (\<lambda>s. \<not> isPromptWrapperJson jp s)
                       (filter (\<lambda>s. length s > 200) (map trim textBlobs));
          best = pickBestString jp longOnes
      in if truthy best then map_option normalizePrompt best else None)"

definition extractPositivePromptFromTextBlobs ::
    "json_parser \<Rightarrow> string list \<Rightarrow> error + extraction" where
  "extractPositivePromptFromTextBlobs jp textBlobs =
     (case phase_A jp textBlobs of
        Inl e \<Rightarrow> Inl e
      | Inr (Some p) \<Rightarrow> Inr \<lparr>prompt = Some p, debugSource = Some ''metadata-json''\<rparr>
      | Inr None \<Rightarrow>
     (case phase_B jp textBlobs of
        Inl e \<Rightarrow> Inl e
      | Inr (Some p) \<Rightarrow> Inr \<lparr>prompt = Some p, debugSource = Some ''raw_workflow-json''\<rparr>
      | Inr None \<Rightarrow>
     (case phase_C jp textBlobs of
        Some p \<Rightarrow> Inr \<lparr>prompt = Some p, debugSource = Some ''fallback-long-text''\<rparr>
      | None \<Rightarrow> Inr \<lparr>prompt = None, debugSource = None\<rparr>)))"

section \<open>PNG text chunks\<close>

type_synonym byte = "8 word"

datatype text_type = tEXt | zTXt | iTXt

record PngTextChunk =
  chunk_type :: text_type
  chunk_keyword :: string
  chunk_text :: string

text \<open>
  What the browser provides: the two formats of \<open>DecompressionStream\<close> (\<open>None\<close> when the
  stream fails) and the \<open>TextDecoder\<close> for UTF-8, which replaces what it cannot decode and
  never fails.
\<close>

record platform =
  stream_deflate :: "byte list \<Rightarrow> byte list option"
  stream_deflate_raw :: "byte list \<Rightarrow> byte list option"
  decodeUTF8 :: "byte list \<Rightarrow> string"

definition PNG_SIGNATURE :: "byte list" where
  "PNG_SIGNATURE = [137, 80, 78, 71, 13, 10, 26, 10]"

definition slice :: "'a list \<Rightarrow> nat \<Rightarrow> nat \<Rightarrow> 'a list" where
  \<comment> \<open>\<open>xs.slice(a, b)\<close> for \<open>0 \<le> a\<close>, cut at the end of \<open>xs\<close>\<close>
  "slice xs a b = take (b - a) (drop a xs)"

definition readU32BE :: "byte list \<Rightarrow> nat \<Rightarrow> nat" where
  \<comment> \<open>read where \<open>offset + 4 \<le> length bytes\<close> only\<close>
  "readU32BE bytes offset = foldl (\<lambda>n b. n * 256 + unat b) 0 (slice bytes offset (offset + 4))"

definition bytesEqual :: "byte list \<Rightarrow> byte list \<Rightarrow> bool" where
  "bytesEqual a b =
     (if length a \<noteq> length b then False else list_all (\<lambda>i. a ! i = b ! i) [0..<length a])"

definition findNullByte :: "byte list \<Rightarrow> nat \<Rightarrow> nat option" where
  \<comment> \<open>\<open>None\<close> is the result \<open>-1\<close>\<close>
  "findNullByte buf start =
     (if list_ex (\<lambda>b. b = 0) (drop start buf)
      then Some (start + length (takeWhile (\<lambda>b. b \<noteq> 0) (drop start buf)))
      else None)"

definition decodeLatin1 :: "byte list \<Rightarrow> string" where
  "decodeLatin1 bytes = map (\<lambda>b. char_of (unat b)) bytes"

definition byte_at :: "byte list \<Rightarrow> nat \<Rightarrow> byte option" where
  \<comment> \<open>\<open>data[i]\<close>; \<open>None\<close> is \<open>undefined\<close>\<close>
  "byte_at data i = (if i < length data then Some (data ! i) else None)"

definition inflateZlib :: "platform \<Rightarrow> byte list \<Rightarrow> byte list option" where
  \<comment> \<open>\<open>None\<close>: the promise is rejected\<close>
  "inflateZlib pf data =
     (case stream_deflate pf data of
        Some out \<Rightarrow> Some out
      | None \<Rightarrow> stream_deflate_raw pf data)"

definition parse_tEXt :: "byte list \<Rightarrow> PngTextChunk option" where
  "parse_tEXt data =
     (case findNullByte data 0 of
        None \<Rightarrow> None
      | Some n \<Rightarrow>
          Some \<lparr>chunk_type = tEXt,
                chunk_keyword = decodeLatin1 (slice data 0 n),
                chunk_text = decodeLatin1 (drop (n + 1) data)\<rparr>)"

definition parse_zTXt :: "platform \<Rightarrow> byte list \<Rightarrow> PngTextChunk option" where
  "parse_zTXt pf data =
     (case findNullByte data 0 of
        None \<Rightarrow> None
      | Some n \<Rightarrow>
          if byte_at data (n + 1) \<noteq> Some 0 then None
          else (case inflateZlib pf (drop (n + 2) data) of
                  Some inflated \<Rightarrow>
                    Some \<lparr>chunk_type = zTXt,
                          chunk_keyword = decodeLatin1 (slice data 0 n),
                          chunk_text = decodeUTF8 pf inflated\<rparr>
                | None \<Rightarrow> None))"

definition parse_iTXt :: "platform \<Rightarrow> byte list \<Rightarrow> PngTextChunk option" where
  "parse_iTXt pf data =
     (case findNullByte data 0 of
        None \<Rightarrow> None
      | Some keywordEnd \<Rightarrow>
          let compressionFlag = byte_at data (keywordEnd + 1);
              compressionMethod = byte_at data (keywordEnd + 2)
          in (case findNullByte data (keywordEnd + 3) of
                None \<Rightarrow> None
              | Some langEnd \<Rightarrow>
                  (case findNullByte data (langEnd + 1) of
                     None \<Rightarrow> None
                   | Some translatedEnd \<Rightarrow>
                       let payload = drop (translatedEnd + 1) data in
                       if compressionFlag = Some 1 then
                         (if compressionMethod \<noteq> Some 0 then None
                          else (case inflateZlib pf payload of
                                  Some inflated \<Rightarrow>
                                    Some \<lparr>chunk_type = iTXt,
                                          chunk_keyword = decodeLatin1 (slice data 0 keywordEnd),
                                          chunk_text = decodeUTF8 pf inflated\<rparr>
                                | None \<Rightarrow> None))
                       else
                         Some \<lparr>chunk_type = iTXt,
                               chunk_keyword = decodeLatin1 (slice data 0 keywordEnd),
                               chunk_text = decodeUTF8 pf payload\<rparr>)))"

definition push :: "'a list \<Rightarrow> 'a option \<Rightarrow> 'a list" where
  \<comment> \<open>\<open>if (parsed) chunks.push(parsed)\<close>\<close>
  "push chunks parsed = (case parsed of Some c \<Rightarrow> chunks @ [c] | None \<Rightarrow> chunks)"

function scan_chunks ::
    "platform \<Rightarrow> byte list \<Rightarrow> nat \<Rightarrow> PngTextChunk list \<Rightarrow> PngTextChunk list" where
  \<comment> \<open>the \<open>while\<close> loop of \<open>extractPngTextChunks\<close>, from the state \<open>(offset, chunks)\<close>\<close>
  "scan_chunks pf bytes offset chunks =
     (if offset + 8 \<le> length bytes then
        (let len = readU32BE bytes offset;
             type = decodeLatin1 (slice bytes (offset + 4) (offset + 8));
             dataStart = offset + 8;
             dataEnd = dataStart + len;
             crcEnd = dataEnd + 4
         in if dataEnd > length bytes \<or> crcEnd > length bytes then chunks
            else
              (let data = slice bytes dataStart dataEnd
               in if type = ''tEXt'' then scan_chunks pf bytes crcEnd (push chunks (parse_tEXt data))
                  else if type = ''zTXt'' then
                    scan_chunks pf bytes crcEnd (push chunks (parse_zTXt pf data))
                  else if type = ''iTXt'' then
                    scan_chunks pf bytes crcEnd (push chunks (parse_iTXt pf data))
                  else if type = ''IEND'' then chunks
                  else scan_chunks pf bytes crcEnd chunks))
      else chunks)"
  by pat_completeness auto
termination
  by (relation "measure (\<lambda>(pf, bytes, offset, chunks). length bytes - offset)") auto

declare scan_chunks.simps [simp del]

definition extractPngTextChunks :: "platform \<Rightarrow> byte list \<Rightarrow> error + PngTextChunk list" where
  "extractPngTextChunks pf bytes =
     (if length bytes < 8 \<or> \<not> bytesEqual (slice bytes 0 8) PNG_SIGNATURE then Inl FormatError
      else Inr (scan_chunks pf bytes 8 []))"

section \<open>The phases of the selector, blob by blob\<close>

definition phase_A_fails_on :: "json_parser \<Rightarrow> string \<Rightarrow> bool" where
  \<comment> \<open>Phase A gets no prompt from this blob, and no error\<close>
  "phase_A_fails_on jp blob =
     (let maybe = safeJsonParse jp blob in
      if is_object maybe
      then (case extractFromMetadataObject jp maybe of Inl e \<Rightarrow> False | Inr p \<Rightarrow> \<not> truthy p)
      else True)"

definition phase_B_on :: "json_parser \<Rightarrow> string \<Rightarrow> error + string option" where
  \<comment> \<open>what Phase B gets from one blob: the workflow-graph extractor runs on a parsed
      object that has a top-level key made of decimal digits only\<close>
  "phase_B_on jp blob =
     (let maybe = safeJsonParse jp blob in
      if is_object maybe \<and> list_ex all_digits (object_keys maybe)
      then extractFromRawWorkflow jp blob
      else Inr None)"

definition phase_B_fails_on :: "json_parser \<Rightarrow> string \<Rightarrow> bool" where
  "phase_B_fails_on jp blob =
     (case phase_B_on jp blob of Inl e \<Rightarrow> False | Inr p \<Rightarrow> \<not> truthy p)"

section \<open>The rules of the extractors, in the words of the specification\<close>

definition prompt_field :: "json_parser \<Rightarrow> json \<Rightarrow> string option" where
  \<comment> \<open>field \<open>prompt\<close>, when it is a string longer than 50 characters after trimming and
      no wrapper: its normalized value\<close>
  "prompt_field jp meta =
     (case typeof_string (js_get meta ''prompt'') of
        Some p \<Rightarrow>
          if length (trim p) > 50 \<and> \<not> isPromptWrapperJson jp p then Some (normalizePrompt p)
          else None
      | None \<Rightarrow> None)"

definition first_usable_field :: "(string \<Rightarrow> bool) \<Rightarrow> json_parser \<Rightarrow> json \<Rightarrow> string option" where
  \<comment> \<open>the string values at the four keys, in the order of the keys; the first that is
      non-empty (in the sense of \<open>nonempty\<close>) and no wrapper, normalized\<close>
  "first_usable_field nonempty jp meta =
     map_option normalizePrompt
       (find (\<lambda>v. nonempty v \<and> \<not> isPromptWrapperJson jp v)
          (List.map_filter (\<lambda>key. typeof_string (js_get meta key))
             [''positive'', ''positive_prompt'', ''Prompt'', ''Positive prompt'']))"

definition priority_rule ::
    "(string \<Rightarrow> bool) \<Rightarrow> json_parser \<Rightarrow> json \<Rightarrow> error + string option" where
  \<comment> \<open>the three steps in order, first success wins; step 1 has yielded a prompt when the
      extractor returns a string that is not empty\<close>
  "priority_rule nonempty jp meta =
     (case (case typeof_string (js_get meta ''raw_workflow'') of
              Some w \<Rightarrow> extractFromRawWorkflow jp w
            | None \<Rightarrow> Inr None) of
        Inl e \<Rightarrow> Inl e
      | Inr r \<Rightarrow>
          if truthy r then Inr r
          else (case prompt_field jp meta of
                  Some p \<Rightarrow> Inr (Some p)
                | None \<Rightarrow> Inr (first_usable_field nonempty jp meta)))"

definition class_type_text :: "json \<Rightarrow> error + string" where
  "class_type_text node = js_String (nullish_or (js_get node ''class_type'') (JStr []))"

definition title_text :: "json \<Rightarrow> error + string" where
  "title_text node =
     js_String (nullish_or (optional_get (js_get node ''_meta'') ''title'') (JStr []))"

definition texts_readable :: "json \<Rightarrow> bool" where
  \<comment> \<open>\<open>String\<close> returns for the class type and for the title of the node\<close>
  "texts_readable node = (\<not> isl (class_type_text node) \<and> \<not> isl (title_text node))"

definition ascii_lower :: "char \<Rightarrow> char" where
  "ascii_lower c =
     (let n = (of_char c :: nat) in if 65 \<le> n \<and> n \<le> 90 then char_of (n + 32) else c)"

definition lower_letter :: "char \<Rightarrow> bool" where
  "lower_letter d = (97 \<le> (of_char d :: nat) \<and> (of_char d :: nat) \<le> 122)"

definition contains_ci :: "string \<Rightarrow> string \<Rightarrow> bool" where
  \<comment> \<open>\<open>s\<close> contains the lower-case text \<open>pat\<close> as a substring, whatever the case of the
      letters of \<open>s\<close>\<close>
  "contains_ci s pat = sublist pat (map ascii_lower s)"

definition looks_positive_node :: "json \<Rightarrow> bool" where
  "looks_positive_node node =
     (case (class_type_text node, title_text node) of
        (Inr classType, Inr title) \<Rightarrow>
          contains_ci classType ''positive'' \<or> contains_ci title ''positive''
          \<or> title = ''Positive''
      | _ \<Rightarrow> False)"

definition input_string :: "json \<Rightarrow> string \<Rightarrow> string list" where
  \<comment> \<open>the field of \<open>inputs\<close> (an empty object by default) when it is a string\<close>
  "input_string node field =
     (case typeof_string (js_get (nullish_or (js_get node ''inputs'') (JObj [])) field) of
        Some s \<Rightarrow> [s]
      | None \<Rightarrow> [])"

definition candidates_of_node :: "(string \<Rightarrow> bool) \<Rightarrow> json \<Rightarrow> string list" where
  \<comment> \<open>\<open>inputs.positive\<close> when not empty after trimming; \<open>inputs.text\<close> and \<open>inputs.prompt\<close>,
      each when non-empty (in the sense of \<open>nonempty\<close>), when the node looks positive\<close>
  "candidates_of_node nonempty node =
     filter (\<lambda>s. trim s \<noteq> []) (input_string node ''positive'')
     @ (if looks_positive_node node
        then filter nonempty (input_string node ''text'')
             @ filter nonempty (input_string node ''prompt'')
        else [])"

definition graph_candidates :: "(string \<Rightarrow> bool) \<Rightarrow> json \<Rightarrow> string list" where
  "graph_candidates nonempty graph =
     concat (map (candidates_of_node nonempty) (filter is_object (object_values graph)))"

section \<open>The layout of a PNG stream\<close>

text \<open>
  A chunk on the wire: a length of four bytes, big-endian, a type code of four bytes, the
  data, and a trailer of four bytes.
\<close>

record raw_chunk =
  type_code :: "byte list"
  chunk_data :: "byte list"
  trailer :: "byte list"

definition u32be :: "nat \<Rightarrow> byte list" where
  "u32be n = [of_nat (n div 256 div 256 div 256), of_nat (n div 256 div 256), of_nat (n div 256),
              of_nat n]"

definition encode_chunk :: "raw_chunk \<Rightarrow> byte list" where
  "encode_chunk c = u32be (length (chunk_data c)) @ type_code c @ chunk_data c @ trailer c"

definition encode_chunks :: "raw_chunk list \<Rightarrow> byte list" where
  "encode_chunks cs = concat (map encode_chunk cs)"

definition well_formed_chunk :: "raw_chunk \<Rightarrow> bool" where
  "well_formed_chunk c =
     (length (type_code c) = 4 \<and> length (trailer c) = 4 \<and> length (chunk_data c) < 4294967296)"

definition is_IEND :: "raw_chunk \<Rightarrow> bool" where
  "is_IEND c = (decodeLatin1 (type_code c) = ''IEND'')"

definition decode_chunk :: "platform \<Rightarrow> raw_chunk \<Rightarrow> PngTextChunk option" where
  \<comment> \<open>the decoder of the payload, chosen by the type code; no decoding for another type\<close>
  "decode_chunk pf c =
     (if decodeLatin1 (type_code c) = ''tEXt'' then parse_tEXt (chunk_data c)
      else if decodeLatin1 (type_code c) = ''zTXt'' then parse_zTXt pf (chunk_data c)
      else if decodeLatin1 (type_code c) = ''iTXt'' then parse_iTXt pf (chunk_data c)
      else None)"

definition text_chunks_before_IEND :: "platform \<Rightarrow> raw_chunk list \<Rightarrow> PngTextChunk list" where
  \<comment> \<open>the chunks before the first \<open>IEND\<close> that decode, in the order of the stream\<close>
  "text_chunks_before_IEND pf cs =
     List.map_filter (decode_chunk pf) (takeWhile (\<lambda>c. \<not> is_IEND c) cs)"

definition truncated_chunk :: "byte list \<Rightarrow> bool" where
  \<comment> \<open>a header whose declared data and trailer go beyond the end of the buffer\<close>
  "truncated_chunk rest = (8 \<le> length rest \<and> length rest < 8 + readU32BE rest 0 + 4)"

fun first_success :: "('a \<Rightarrow> 'b option) list \<Rightarrow> 'a \<Rightarrow> 'b option" where
  \<comment> \<open>the attempts in order, the first that succeeds\<close>
  "first_success [] x = None"
| "first_success (f # fs) x = (case f x of Some y \<Rightarrow> Some y | None \<Rightarrow> first_success fs x)"

definition ascii :: "string \<Rightarrow> byte list" where
  "ascii s = map (\<lambda>c. of_nat (of_char c)) s"

definition zTXt_data :: "byte list \<Rightarrow> byte list \<Rightarrow> byte list" where
  \<comment> \<open>keyword, NUL, compression method 0, compressed text\<close>
  "zTXt_data kw payload = kw @ [0, 0] @ payload"

definition iTXt_data :: "byte list \<Rightarrow> byte \<Rightarrow> byte \<Rightarrow> byte list \<Rightarrow> byte list \<Rightarrow> byte list \<Rightarrow> byte list" where
  \<comment> \<open>keyword, NUL, compression flag, compression method, language tag, NUL, translated
      keyword, NUL, text\<close>
  "iTXt_data kw flag method lang translated payload =
     kw @ [0, flag, method] @ lang @ [0] @ translated @ [0] @ payload"

section \<open>Concrete streams\<close>

definition toy_platform :: platform where
  \<comment> \<open>a platform to run examples on: one payload inflates as a zlib stream, another one
      only as a raw stream, every other payload fails in both formats\<close>
  "toy_platform =
     \<lparr>stream_deflate = (\<lambda>d. if d = [120, 156, 1] then Some (ascii ''framed'') else None),
      stream_deflate_raw = (\<lambda>d. if d = [75, 2] then Some (ascii ''raw'') else None),
      decodeUTF8 = decodeLatin1\<rparr>"

definition gamma_chunk :: raw_chunk where
  "gamma_chunk = \<lparr>type_code = ascii ''gAMA'', chunk_data = [0, 0, 177, 143], trailer = [11, 252, 97, 5]\<rparr>"

definition text_chunk :: raw_chunk where
  "text_chunk = \<lparr>type_code = ascii ''tEXt'', chunk_data = ascii ''k'' @ [0] @ ascii ''hi'',
                  trailer = [0, 0, 0, 0]\<rparr>"

definition no_separator_chunk :: raw_chunk where
  "no_separator_chunk = \<lparr>type_code = ascii ''tEXt'', chunk_data = ascii ''khi'', trailer = [0, 0, 0, 0]\<rparr>"

definition framed_chunk :: raw_chunk where
  "framed_chunk = \<lparr>type_code = ascii ''zTXt'', chunk_data = zTXt_data (ascii ''z'') [120, 156, 1],
                    trailer = [0, 0, 0, 0]\<rparr>"

definition raw_stream_chunk :: raw_chunk where
  "raw_stream_chunk =
     \<lparr>type_code = ascii ''iTXt'', chunk_data = iTXt_data (ascii ''i'') 1 0 (ascii ''en'') [] [75, 2],
      trailer = [0, 0, 0, 0]\<rparr>"

definition broken_chunk :: raw_chunk where
  "broken_chunk = \<lparr>type_code = ascii ''zTXt'', chunk_data = zTXt_data (ascii ''b'') [1, 2, 3],
                    trailer = [0, 0, 0, 0]\<rparr>"

definition end_chunk :: raw_chunk where
  "end_chunk = \<lparr>type_code = ascii ''IEND'', chunk_data = [], trailer = [174, 66, 96, 130]\<rparr>"

definition example_stream :: "raw_chunk list" where
  "example_stream = [gamma_chunk, text_chunk, no_separator_chunk, end_chunk, text_chunk]"

definition cut_header :: "byte list" where
  \<comment> \<open>a \<open>tEXt\<close> header that declares five bytes of data, followed by two bytes\<close>
  "cut_header = [0, 0, 0, 5] @ ascii ''tEXt'' @ [107, 0]"

section \<open>Concrete inputs\<close>

definition scenario_2 :: string where
  "scenario_2 = ''{\"3\":{\"_meta\":{\"title\":\"Positive\"},\"inputs\":{\"text\":\"dog running, 4k, sharp\"}}}''"

definition array_blob :: string where
  "array_blob = ''[{\"inputs\":{\"positive\":\"a cat\"}}]''"

definition array_value :: json where
  "array_value = JArr [JObj [(''inputs'', JObj [(''positive'', JStr ''a cat'')])]]"

definition escaped_newlines :: string where
  \<comment> \<open>101 times the two characters backslash and \<open>n\<close>\<close>
  "escaped_newlines = concat (replicate 101 [CHR 0x5C, CHR ''n''])"

definition blank_positive :: json where
  "blank_positive = JObj [(''positive'', JStr '' ''), (''positive_prompt'', JStr ''cat'')]"

definition newline_workflow :: string where
  \<comment> \<open>the text \<open>{"1":{"inputs":{"positive":"\\n"}}}\<close>: the string at \<open>positive\<close> is
      a backslash and an \<open>n\<close>\<close>
  "newline_workflow =
     ''{\"1\":{\"inputs\":{\"positive\":\"'' @ [CHR 0x5C, CHR 0x5C] @ ''n\"}}}''"

definition newline_workflow_meta :: json where
  "newline_workflow_meta = JObj [(''raw_workflow'', JStr newline_workflow), (''positive'', JStr ''cat'')]"

definition blank_text_graph :: json where
  "blank_text_graph =
     JObj [(''1'', JObj [(''_meta'', JObj [(''title'', JStr ''Positive'')]),
                        (''inputs'', JObj [(''text'', JStr '' '')])])]"

definition toString_graph :: string where
  "toString_graph = ''{\"1\":{\"class_type\":{\"toString\":1},\"inputs\":{\"positive\":\"a cat\"}}}''"

definition two_candidates :: "string list" where
  "two_candidates = [''short'', ''a much longer candidate string here'']"

definition scenario_1 :: string where
  \<comment> \<open>an object whose \<open>raw_workflow\<close> is the text of a workflow with one node, the quotes of
      that text escaped\<close>
  "scenario_1 =
     ''{\"raw_workflow\":\"{'' @ [CHR 0x5C] @ ''\"1'' @ [CHR 0x5C] @ ''\":{'' @ [CHR 0x5C]
     @ ''\"inputs'' @ [CHR 0x5C] @ ''\":{'' @ [CHR 0x5C] @ ''\"positive'' @ [CHR 0x5C] @ ''\":''
     @ [CHR 0x5C] @ ''\"a cat sitting on a wall'' @ [CHR 0x5C] @ ''\"}}}\"}''"

definition scenario_4 :: string where
  "scenario_4 = ''{\"prompt\":\"short\"}''"

definition scenario_5 :: string where
  \<comment> \<open>two lines separated by the four characters backslash, \<open>r\<close>, backslash, \<open>n\<close>, with
      blanks around\<close>
  "scenario_5 = ''  first line'' @ [CHR 0x5C, CHR ''r'', CHR 0x5C, CHR ''n''] @ ''second line ''"

section \<open>Properties of the selector\<close>

lemma not_wrapper_without_brace:
  "\<not> startsWith (trim s) ''{'' \<Longrightarrow> \<not> isPromptWrapperJson jp s"
  by (simp add: isPromptWrapperJson_def Let_def)

lemma js_sort_single: "js_sort cmp [x] = [x]"
  by (simp add: js_sort_def)

lemma pickBestString_single:
  "trim c \<noteq> [] \<Longrightarrow> \<not> isPromptWrapperJson jp (trim c) \<Longrightarrow> pickBestString jp [c] = Some (trim c)"
  by (simp add: pickBestString_def cleaned_candidates_def js_sort_single)

lemma phase_A_all_fail:
  "list_all (phase_A_fails_on jp) blobs \<Longrightarrow> phase_A jp blobs = Inr None"
  by (induction blobs) (auto simp: phase_A_fails_on_def Let_def split: sum.splits if_splits)

lemma phase_B_skip_failed:
  "list_all (phase_B_fails_on jp) pre \<Longrightarrow> phase_B jp (pre @ rest) = phase_B jp rest"
  by (induction pre)
     (auto simp: phase_B_fails_on_def phase_B_on_def Let_def split: sum.splits if_splits)

lemma phase_A_truthy: "phase_A jp blobs = Inr p \<Longrightarrow> p = None \<or> truthy p"
  by (induction blobs) (auto simp: Let_def split: sum.splits if_splits)

lemma phase_B_truthy: "phase_B jp blobs = Inr p \<Longrightarrow> p = None \<or> truthy p"
  by (induction blobs) (auto simp: Let_def split: sum.splits if_splits)

lemma scenario_2_A: "phase_A_fails_on json_parse scenario_2"
  by code_simp

lemma scenario_2_obj: "is_object (safeJsonParse json_parse scenario_2)"
  by code_simp

lemma scenario_2_keys: "list_ex all_digits (object_keys (safeJsonParse json_parse scenario_2))"
  by code_simp

lemma scenario_2_wf:
  "extractFromRawWorkflow json_parse scenario_2 = Inr (Some ''dog running, 4k, sharp'')"
  by code_simp

text \<open>
  C2, as the code has it. When every blob fails Phase A and Phase B succeeds first on
  \<open>blob\<close> (a parsed object with a top-level key of decimal digits, from which the
  workflow-graph extractor gets the non-empty prompt \<open>p\<close>, the blobs before it failing
  Phase B), the result carries \<open>p\<close> and the tag \<open>raw_workflow-json\<close>, written with an
  underscore.
\<close>

theorem phase_B_tag:
  assumes "list_all (phase_A_fails_on jp) textBlobs"
    and "textBlobs = pre @ blob # post"
    and "list_all (phase_B_fails_on jp) pre"
    and "is_object (safeJsonParse jp blob)"
    and "list_ex all_digits (object_keys (safeJsonParse jp blob))"
    and "extractFromRawWorkflow jp blob = Inr (Some p)"
    and "p \<noteq> []"
  shows "extractPositivePromptFromTextBlobs jp textBlobs =
           Inr \<lparr>prompt = Some p, debugSource = Some ''raw_workflow-json''\<rparr>"
proof -
  have a: "phase_A jp textBlobs = Inr None"
    using assms(1) by (rule phase_A_all_fail)
  have "phase_B jp textBlobs = phase_B jp (blob # post)"
    using assms(2,3) by (simp add: phase_B_skip_failed)
  also have "\<dots> = Inr (Some p)"
    using assms(4-7) by (simp add: Let_def)
  finally show ?thesis
    using a by (simp add: extractPositivePromptFromTextBlobs_def)
qed

theorem phase_B_tag_witness:
  "list_all (phase_A_fails_on json_parse) [scenario_2]
   \<and> list_all (phase_B_fails_on json_parse) []
   \<and> extractFromRawWorkflow json_parse scenario_2 = Inr (Some ''dog running, 4k, sharp'')
   \<and> extractPositivePromptFromTextBlobs json_parse [scenario_2] =
       Inr \<lparr>prompt = Some ''dog running, 4k, sharp'', debugSource = Some ''raw_workflow-json''\<rparr>"
  using phase_B_tag [of json_parse "[scenario_2]" "[]" scenario_2 "[]" "''dog running, 4k, sharp''"]
    scenario_2_A scenario_2_obj scenario_2_keys scenario_2_wf
  by simp

text \<open>
  C2 as it is stated fails on the second scenario of the specification: Phase A gets
  nothing, Phase B gets the prompt, and the tag of the result is not \<open>raw-workflow-json\<close>.
\<close>

theorem phase_B_tag_counterexample:
  "phase_A json_parse [scenario_2] = Inr None
   \<and> phase_B json_parse [scenario_2] = Inr (Some ''dog running, 4k, sharp'')
   \<and> map_sum id debugSource (extractPositivePromptFromTextBlobs json_parse [scenario_2])
       = Inr (Some ''raw_workflow-json'')
   \<and> map_sum id debugSource (extractPositivePromptFromTextBlobs json_parse [scenario_2])
       \<noteq> Inr (Some ''raw-workflow-json'')"
  by code_simp

text \<open>
  C8. Whenever the selector returns a result, that result has no tag exactly when it has
  no prompt; a prompt comes with the tag of the phase that found it.
\<close>

theorem source_none_iff_prompt_absent:
  assumes "extractPositivePromptFromTextBlobs jp textBlobs = Inr r"
  shows "(debugSource r = None \<longleftrightarrow> prompt r = None)
       \<and> (prompt r = None
          \<or> debugSource r = Some ''metadata-json''
          \<or> debugSource r = Some ''raw_workflow-json''
          \<or> debugSource r = Some ''fallback-long-text'')"
  using assms
  by (auto simp: extractPositivePromptFromTextBlobs_def split: sum.splits option.splits)

lemma scenario_2_result:
  "extractPositivePromptFromTextBlobs json_parse [scenario_2] =
     Inr \<lparr>prompt = Some ''dog running, 4k, sharp'', debugSource = Some ''raw_workflow-json''\<rparr>"
  by code_simp

theorem source_none_iff_prompt_absent_witness:
  "extractPositivePromptFromTextBlobs json_parse [scenario_2] =
     Inr \<lparr>prompt = Some ''dog running, 4k, sharp'', debugSource = Some ''raw_workflow-json''\<rparr>
   \<and> (debugSource \<lparr>prompt = Some ''dog running, 4k, sharp'',
                      debugSource = Some ''raw_workflow-json''\<rparr> = None
        \<longleftrightarrow> prompt \<lparr>prompt = Some ''dog running, 4k, sharp'',
                      debugSource = Some ''raw_workflow-json''\<rparr> = None)"
  using source_none_iff_prompt_absent [OF scenario_2_result] scenario_2_result
  by simp

lemma trim_a_cat: "trim ''a cat'' = ''a cat''"
  by code_simp

lemma trim_a_cat_brace: "\<not> startsWith (trim (trim ''a cat'')) ''{''"
  by code_simp

lemma normalize_a_cat: "normalizePrompt ''a cat'' = ''a cat''"
  by code_simp

lemma array_keys: "list_ex all_digits (object_keys array_value)"
  by code_simp

lemma array_node: "workflow_candidates (object_values array_value) [] = Inr [''a cat'']"
  by code_simp

lemma array_meta: "metadata_fields jp array_value = None"
  by (simp add: metadata_fields_def array_value_def)

lemma array_index_keys: "xs \<noteq> [] \<Longrightarrow> list_ex all_digits (object_keys (JArr xs))"
proof -
  assume "xs \<noteq> []"
  then have "0 \<in> set [0..<length xs]" by simp
  moreover have "all_digits (dec 0)" by code_simp
  ultimately show ?thesis by (auto simp: list_ex_iff)
qed

text \<open>
  C9. A parser that reads the text \<open>[{"inputs":{"positive":"a cat"}}]\<close> as the array it
  denotes makes the selector accept the array as an object: its only key is the index
  \<open>0\<close>, a key of decimal digits; Phase A gets nothing from it, and Phase B returns the
  string at \<open>inputs.positive\<close> of the element.
\<close>

theorem array_accepted_as_object:
  assumes "jp array_blob = Some array_value"
  shows "is_object (safeJsonParse jp array_blob)
       \<and> object_keys (safeJsonParse jp array_blob) = [''0'']
       \<and> list_ex all_digits (object_keys (safeJsonParse jp array_blob))
       \<and> phase_A jp [array_blob] = Inr None
       \<and> phase_B jp [array_blob] = Inr (Some ''a cat'')
       \<and> extractPositivePromptFromTextBlobs jp [array_blob] =
           Inr \<lparr>prompt = Some ''a cat'', debugSource = Some ''raw_workflow-json''\<rparr>"
proof -
  have p: "safeJsonParse jp array_blob = array_value"
    using assms by (simp add: safeJsonParse_def)
  have o: "is_object array_value" by (simp add: array_value_def)
  have k: "object_keys array_value = [''0'']" by code_simp
  have best: "pickBestString jp [''a cat''] = Some ''a cat''"
    using pickBestString_single [of "''a cat''" jp] trim_a_cat trim_a_cat_brace
    by (simp add: not_wrapper_without_brace)
  have wf: "extractFromRawWorkflow jp array_blob = Inr (Some ''a cat'')"
    by (simp add: extractFromRawWorkflow_def p o array_node best normalize_a_cat)
  have m: "extractFromMetadataObject jp array_value = Inr None"
    using array_meta [of jp] by (simp add: extractFromMetadataObject_def array_value_def)
  have a: "phase_A jp [array_blob] = Inr None"
    by (simp add: p o m)
  have b: "phase_B jp [array_blob] = Inr (Some ''a cat'')"
    by (simp add: p o array_keys wf)
  have r: "extractPositivePromptFromTextBlobs jp [array_blob] =
             Inr \<lparr>prompt = Some ''a cat'', debugSource = Some ''raw_workflow-json''\<rparr>"
    unfolding extractPositivePromptFromTextBlobs_def a b by simp
  have o': "is_object (safeJsonParse jp array_blob)"
    unfolding p by (rule o)
  have k': "object_keys (safeJsonParse jp array_blob) = [''0'']"
    unfolding p by (rule k)
  have d: "list_ex all_digits (object_keys (safeJsonParse jp array_blob))"
    unfolding p by (rule array_keys)
  from o' k' d a b r show ?thesis by blast
qed

lemma array_blob_parses: "json_parse array_blob = Some array_value"
  by code_simp

theorem array_accepted_as_object_witness:
  "json_parse array_blob = Some array_value
   \<and> extractPositivePromptFromTextBlobs json_parse [array_blob] =
       Inr \<lparr>prompt = Some ''a cat'', debugSource = Some ''raw_workflow-json''\<rparr>"
  using array_accepted_as_object [of json_parse] array_blob_parses by simp

lemma escaped_trim: "trim escaped_newlines = escaped_newlines"
  by code_simp

lemma escaped_length: "length escaped_newlines = 202"
  by code_simp

lemma escaped_brace: "\<not> startsWith (trim escaped_newlines) ''{''"
  by code_simp

lemma escaped_normal: "normalizePrompt escaped_newlines = []"
  by code_simp

lemma escaped_nonempty: "escaped_newlines \<noteq> []"
  by code_simp

text \<open>
  C10. For a blob of 101 escape sequences backslash-\<open>n\<close> that the parser refuses, the blob
  is longer than 200 characters after trimming, is no wrapper, wins \<open>pickBestString\<close>,
  and the selector returns a present prompt that is the empty string, tagged by Phase C.
\<close>

theorem empty_prompt_present:
  assumes "jp escaped_newlines = None"
  shows "length (trim escaped_newlines) > 200
       \<and> \<not> isPromptWrapperJson jp escaped_newlines
       \<and> pickBestString jp [trim escaped_newlines] = Some escaped_newlines
       \<and> normalizePrompt escaped_newlines = []
       \<and> extractPositivePromptFromTextBlobs jp [escaped_newlines] =
           Inr \<lparr>prompt = Some [], debugSource = Some ''fallback-long-text''\<rparr>"
proof -
  have p: "safeJsonParse jp escaped_newlines = JNull"
    using assms by (simp add: safeJsonParse_def)
  have w: "\<not> isPromptWrapperJson jp escaped_newlines"
    using escaped_brace by (rule not_wrapper_without_brace)
  have best: "pickBestString jp [escaped_newlines] = Some escaped_newlines"
    using pickBestString_single [of escaped_newlines jp] w
    by (simp add: escaped_trim escaped_nonempty)
  have c: "phase_C jp [escaped_newlines] = Some []"
    by (simp add: phase_C_def escaped_trim escaped_length w best escaped_nonempty escaped_normal)
  have a: "phase_A jp [escaped_newlines] = Inr None"
    by (simp add: p)
  have b: "phase_B jp [escaped_newlines] = Inr None"
    by (simp add: p)
  have r: "extractPositivePromptFromTextBlobs jp [escaped_newlines] =
             Inr \<lparr>prompt = Some [], debugSource = Some ''fallback-long-text''\<rparr>"
    unfolding extractPositivePromptFromTextBlobs_def a b c by simp
  have l: "length (trim escaped_newlines) > 200"
    by (simp add: escaped_trim escaped_length)
  have best': "pickBestString jp [trim escaped_newlines] = Some escaped_newlines"
    using best by (simp add: escaped_trim)
  from l w best' escaped_normal r show ?thesis by blast
qed

lemma escaped_not_json: "json_parse escaped_newlines = None"
  by code_simp

theorem empty_prompt_present_witness:
  "json_parse escaped_newlines = None
   \<and> extractPositivePromptFromTextBlobs json_parse [escaped_newlines] =
       Inr \<lparr>prompt = Some [], debugSource = Some ''fallback-long-text''\<rparr>"
  using empty_prompt_present [of json_parse] escaped_not_json by simp

section \<open>Properties of the string selection\<close>

lemma js_sort_Cons: "js_sort cmp (x # xs) = insert_by cmp x (js_sort cmp xs)"
  by (simp add: js_sort_def)

lemma insert_by_nonempty: "insert_by cmp x ys \<noteq> []"
  by (cases ys) auto

lemma js_sort_nonempty: "xs \<noteq> [] \<Longrightarrow> js_sort cmp xs \<noteq> []"
  by (cases xs) (auto simp: js_sort_Cons insert_by_nonempty)

lemma js_sort_Nil: "js_sort cmp [] = []"
  by (simp add: js_sort_def)

lemma hd_insert_by:
  "hd (insert_by cmp x ys) = (if ys = [] \<or> cmp x (hd ys) \<le> 0 then x else hd ys)"
  by (cases ys) auto

lemma hd_js_sort_by_length:
  "xs \<noteq> [] \<Longrightarrow>
     \<exists>i<length xs. hd (js_sort by_length_desc xs) = xs ! i
       \<and> (\<forall>j<length xs. length (xs ! j) \<le> length (xs ! i))
       \<and> (\<forall>j<i. length (xs ! j) < length (xs ! i))"
proof (induction xs)
  case Nil
  then show ?case by simp
next
  case (Cons x xs)
  show ?case
  proof (cases "xs = []")
    case True
    then show ?thesis by (simp add: js_sort_def)
  next
    case False
    with Cons.IH obtain i where i: "i < length xs"
      and h: "hd (js_sort by_length_desc xs) = xs ! i"
      and m: "\<forall>j<length xs. length (xs ! j) \<le> length (xs ! i)"
      and f: "\<forall>j<i. length (xs ! j) < length (xs ! i)"
      by blast
    have ne: "js_sort by_length_desc xs \<noteq> []"
      using False by (rule js_sort_nonempty)
    have step: "\<And>j P. j < length (x # xs) \<Longrightarrow> P x \<Longrightarrow> (\<And>k. k < length xs \<Longrightarrow> P (xs ! k))
                  \<Longrightarrow> P ((x # xs) ! j)"
      subgoal for j P by (cases j) simp_all
      done
    show ?thesis
    proof (cases "length (xs ! i) \<le> length x")
      case True
      then have "hd (js_sort by_length_desc (x # xs)) = (x # xs) ! 0"
        by (simp add: js_sort_Cons hd_insert_by h by_length_desc_def)
      moreover have "\<forall>j<length (x # xs). length ((x # xs) ! j) \<le> length ((x # xs) ! 0)"
      proof (intro allI impI)
        fix j assume "j < length (x # xs)"
        then show "length ((x # xs) ! j) \<le> length ((x # xs) ! 0)"
        proof (rule step)
          show "length x \<le> length ((x # xs) ! 0)" by simp
        next
          fix k assume "k < length xs"
          with m have "length (xs ! k) \<le> length (xs ! i)" by simp
          with True show "length (xs ! k) \<le> length ((x # xs) ! 0)" by simp
        qed
      qed
      ultimately show ?thesis by (intro exI [of _ 0]) simp
    next
      case False
      then have "hd (js_sort by_length_desc (x # xs)) = (x # xs) ! Suc i"
        using ne by (simp add: js_sort_Cons hd_insert_by h by_length_desc_def)
      moreover have "\<forall>j<length (x # xs). length ((x # xs) ! j) \<le> length ((x # xs) ! Suc i)"
      proof (intro allI impI)
        fix j assume "j < length (x # xs)"
        then show "length ((x # xs) ! j) \<le> length ((x # xs) ! Suc i)"
        proof (rule step)
          show "length x \<le> length ((x # xs) ! Suc i)" using False by simp
        next
          fix k assume "k < length xs"
          with m show "length (xs ! k) \<le> length ((x # xs) ! Suc i)" by simp
        qed
      qed
      moreover have "\<forall>j<Suc i. length ((x # xs) ! j) < length ((x # xs) ! Suc i)"
      proof (intro allI impI)
        fix j assume j: "j < Suc i"
        show "length ((x # xs) ! j) < length ((x # xs) ! Suc i)"
        proof (cases j)
          case 0
          then show ?thesis using False by simp
        next
          case (Suc k)
          with j have "k < i" by simp
          with f Suc show ?thesis by simp
        qed
      qed
      ultimately show ?thesis using i by (intro exI [of _ "Suc i"]) simp
    qed
  qed
qed

lemma pickBestString_hd:
  "pickBestString jp candidates =
     (if cleaned_candidates jp candidates = [] then None
      else Some (hd (js_sort by_length_desc (cleaned_candidates jp candidates))))"
  by (cases "js_sort by_length_desc (cleaned_candidates jp candidates)")
     (auto simp: pickBestString_def Let_def dest: js_sort_nonempty)

text \<open>
  C4. \<open>pickBestString\<close> trims each candidate, drops the empty ones, then the wrappers;
  when nothing is left it returns nothing, and otherwise it returns the entry of greatest
  length among those left, the earliest one among the entries of that length.
\<close>

theorem pickBestString_longest_first:
  "let cleaned = filter (\<lambda>c. \<not> isPromptWrapperJson jp c)
                   (filter (\<lambda>c. c \<noteq> []) (map trim candidates))
   in (cleaned = [] \<longrightarrow> pickBestString jp candidates = None)
    \<and> (cleaned \<noteq> [] \<longrightarrow>
         (\<exists>i<length cleaned. pickBestString jp candidates = Some (cleaned ! i)
            \<and> (\<forall>j<length cleaned. length (cleaned ! j) \<le> length (cleaned ! i))
            \<and> (\<forall>j<i. length (cleaned ! j) < length (cleaned ! i))))"
  unfolding Let_def
  using hd_js_sort_by_length [of "cleaned_candidates jp candidates"]
  by (simp add: pickBestString_hd cleaned_candidates_def)

lemma two_candidates_cleaned:
  "filter (\<lambda>c. \<not> isPromptWrapperJson json_parse c)
     (filter (\<lambda>c. c \<noteq> []) (map trim two_candidates)) = two_candidates"
  by code_simp

theorem pickBestString_longest_first_witness:
  "two_candidates \<noteq> []
   \<and> (\<exists>i<length two_candidates.
         pickBestString json_parse two_candidates = Some (two_candidates ! i)
         \<and> (\<forall>j<length two_candidates. length (two_candidates ! j) \<le> length (two_candidates ! i))
         \<and> (\<forall>j<i. length (two_candidates ! j) < length (two_candidates ! i)))"
proof -
  have ne: "two_candidates \<noteq> []"
    by (simp add: two_candidates_def)
  show ?thesis
    using pickBestString_longest_first [of json_parse two_candidates] ne
    unfolding Let_def two_candidates_cleaned by simp
qed

lemma pickBestString_examples:
  "pickBestString json_parse two_candidates = Some ''a much longer candidate string here''"
  "pickBestString json_parse [''{\"prompt\":\"x\"}''] = None"
  by code_simp+

section \<open>The match of the word positive\<close>

lemma code_canonicalize:
  "(of_char (canonicalize c) :: nat) =
     (if 97 \<le> (of_char c :: nat) \<and> (of_char c :: nat) \<le> 122 then of_char c - 32 else of_char c)"
  by (auto simp: canonicalize_def Let_def intro!: mod_less)

lemma code_ascii_lower:
  "(of_char (ascii_lower c) :: nat) =
     (if 65 \<le> (of_char c :: nat) \<and> (of_char c :: nat) \<le> 90 then of_char c + 32 else of_char c)"
  by (auto simp: ascii_lower_def Let_def intro!: mod_less)

lemma fold_case_arith:
  "97 \<le> k \<Longrightarrow> k \<le> 122 \<Longrightarrow>
     ((if 97 \<le> n \<and> n \<le> 122 then n - 32 else n) = k - 32)
       = ((if 65 \<le> n \<and> n \<le> 90 then n + 32 else n) = (k::nat))"
  by auto

lemma canonicalize_lower:
  assumes "lower_letter d"
  shows "canonicalize c = canonicalize d \<longleftrightarrow> ascii_lower c = d"
proof -
  have k: "97 \<le> (of_char d :: nat)" "(of_char d :: nat) \<le> 122"
    using assms by (simp_all add: lower_letter_def)
  have d: "(of_char (canonicalize d) :: nat) = of_char d - 32"
    using k by (simp only: code_canonicalize) simp
  have "canonicalize c = canonicalize d
          \<longleftrightarrow> (of_char (canonicalize c) :: nat) = of_char (canonicalize d)"
    by (simp only: of_char_eq_iff)
  also have "\<dots> \<longleftrightarrow> (of_char (ascii_lower c) :: nat) = of_char d"
    unfolding d code_canonicalize [of c] code_ascii_lower
    by (rule fold_case_arith [OF k])
  also have "\<dots> \<longleftrightarrow> ascii_lower c = d"
    by (simp only: of_char_eq_iff)
  finally show ?thesis .
qed

lemma map_canonicalize_lower:
  "list_all lower_letter pat \<Longrightarrow>
     map canonicalize xs = map canonicalize pat \<longleftrightarrow> map ascii_lower xs = pat"
proof (induction pat arbitrary: xs)
  case Nil
  then show ?case by simp
next
  case (Cons d pat)
  then show ?case
    by (cases xs) (auto simp: canonicalize_lower)
qed

lemma prefix_take: "prefix pat xs \<longleftrightarrow> take (length pat) xs = pat"
  by (metis append_eq_conv_conj append_take_drop_id prefix_def)

lemma regex_test_ci_sublist:
  assumes "list_all lower_letter pat"
  shows "regex_test_ci pat s \<longleftrightarrow> contains_ci s pat"
  unfolding contains_ci_def
proof (induction s)
  case Nil
  then show ?case by simp
next
  case (Cons c cs)
  have "map canonicalize (take (length pat) (c # cs)) = map canonicalize pat
          \<longleftrightarrow> prefix pat (map ascii_lower (c # cs))"
    unfolding map_canonicalize_lower [OF assms] prefix_take
    by (simp only: take_map length_map)
  then show ?case
    using Cons.IH by (simp add: sublist_Cons_right)
qed

lemma positive_lower: "list_all lower_letter ''positive''"
  by (simp add: lower_letter_def)

lemma looksPositive_words:
  "looksPositive classType title \<longleftrightarrow>
     contains_ci classType ''positive'' \<or> contains_ci title ''positive'' \<or> title = ''Positive''"
  by (simp only: looksPositive_def regex_test_ci_sublist [OF positive_lower])

section \<open>Properties of the extractors\<close>

lemma scan_keys_find:
  "scan_keys jp meta keys =
     map_option normalizePrompt
       (find (\<lambda>v. trim v \<noteq> [] \<and> \<not> isPromptWrapperJson jp v)
          (List.map_filter (\<lambda>key. typeof_string (js_get meta key)) keys))"
  by (induction keys) (auto simp: List.map_filter_simps split: option.splits)

lemma metadata_fields_rule:
  "metadata_fields jp meta =
     (case prompt_field jp meta of
        Some p \<Rightarrow> Some p
      | None \<Rightarrow> first_usable_field (\<lambda>v. trim v \<noteq> []) jp meta)"
proof -
  define rest where
    "rest = scan_keys jp meta [''positive'', ''positive_prompt'', ''Prompt'', ''Positive prompt'']"
  have r: "first_usable_field (\<lambda>v. trim v \<noteq> []) jp meta = rest"
    by (simp only: rest_def scan_keys_find first_usable_field_def)
  have "metadata_fields jp meta =
          (case typeof_string (js_get meta ''prompt'') of
             Some p \<Rightarrow>
               if length (trim p) > 0 \<and> length (trim p) > 50 \<and> \<not> isPromptWrapperJson jp p
               then Some (normalizePrompt p) else rest
           | None \<Rightarrow> rest)"
    by (simp only: metadata_fields_def rest_def)
  then show ?thesis
    by (auto simp: r prompt_field_def split: option.splits)
qed

text \<open>
  C1, as the code has it. For every JSON object, \<open>extractFromMetadataObject\<close> follows
  the three steps in order, first success wins: (1) a string at \<open>raw_workflow\<close> goes to
  the workflow-graph extractor, whose error is the error of the call and whose prompt is
  returned when it is a string that is not empty; (2) otherwise a string at \<open>prompt\<close> that is longer than
  50 characters after trimming and no wrapper is returned normalized; (3) otherwise the
  keys \<open>positive\<close>, \<open>positive_prompt\<close>, \<open>Prompt\<close>, \<open>Positive prompt\<close> are read in this order
  and the first string that is not empty after trimming and no wrapper is returned
  normalized; nothing is returned when the three steps fail.
\<close>

theorem metadata_priority_order:
  "extractFromMetadataObject jp (JObj kvs) =
     priority_rule (\<lambda>v. trim v \<noteq> []) jp (JObj kvs)"
  by (simp add: extractFromMetadataObject_def priority_rule_def metadata_fields_rule
           split: option.splits sum.splits)

lemma blank_positive_stated:
  "priority_rule (\<lambda>v. v \<noteq> []) json_parse blank_positive = Inr (Some [])"
  by code_simp

theorem metadata_priority_order_witness:
  "extractFromMetadataObject json_parse blank_positive = Inr (Some ''cat'')"
proof -
  have "priority_rule (\<lambda>v. trim v \<noteq> []) json_parse blank_positive = Inr (Some ''cat'')"
    by code_simp
  then show ?thesis
    using metadata_priority_order [of json_parse "[(''positive'', JStr '' ''), (''positive_prompt'', JStr ''cat'')]"]
    by (simp add: blank_positive_def)
qed

text \<open>
  C1 as it is stated fails at the object with a blank string at \<open>positive\<close> and \<open>cat\<close> at
  \<open>positive_prompt\<close>: the first non-empty string among the four keys is the blank one,
  whose normalized value is empty, but the code returns \<open>cat\<close>.
\<close>

theorem metadata_priority_order_counterexample:
  "extractFromMetadataObject json_parse blank_positive = Inr (Some ''cat'')
   \<and> priority_rule (\<lambda>v. v \<noteq> []) json_parse blank_positive = Inr (Some [])"
  by code_simp

text \<open>
  Step 1 yields a prompt when the string it gets is not empty: from the workflow whose
  only candidate normalizes to the empty string the search goes on to the other fields.
\<close>

lemma empty_workflow_prompt_goes_on:
  "extractFromRawWorkflow json_parse newline_workflow = Inr (Some [])"
  "extractFromMetadataObject json_parse newline_workflow_meta = Inr (Some ''cat'')"
  by code_simp+

lemma node_candidates_skip: "\<not> is_object node \<Longrightarrow> node_candidates node = Inr []"
  by (simp add: node_candidates_def)

lemma nonblank_string_filter:
  "nonblank_string (js_get (nullish_or (js_get node ''inputs'') (JObj [])) field) =
     filter (\<lambda>s. trim s \<noteq> []) (input_string node field)"
  by (simp add: nonblank_string_def input_string_def split: option.splits)

lemma node_candidates_spec:
  assumes "is_object node" and "texts_readable node"
  shows "node_candidates node = Inr (candidates_of_node (\<lambda>s. trim s \<noteq> []) node)"
proof -
  from assms(2) obtain classType title
    where c: "class_type_text node = Inr classType" and t: "title_text node = Inr title"
    by (cases "class_type_text node"; cases "title_text node") (auto simp: texts_readable_def)
  have l: "looks_positive_node node = looksPositive classType title"
    by (simp add: looks_positive_node_def looksPositive_words c t)
  show ?thesis
    using assms(1) c t
    by (simp add: node_candidates_def class_type_text_def title_text_def Let_def
          candidates_of_node_def l nonblank_string_filter)
qed

lemma workflow_candidates_spec:
  "list_all texts_readable (filter is_object nodes) \<Longrightarrow>
     workflow_candidates nodes acc =
       Inr (acc @ concat (map (candidates_of_node (\<lambda>s. trim s \<noteq> [])) (filter is_object nodes)))"
proof (induction nodes arbitrary: acc)
  case Nil
  then show ?case by simp
next
  case (Cons node nodes)
  show ?case
  proof (cases "is_object node")
    case True
    with Cons.prems have "texts_readable node"
      and rest: "list_all texts_readable (filter is_object nodes)" by simp_all
    with True have "node_candidates node = Inr (candidates_of_node (\<lambda>s. trim s \<noteq> []) node)"
      by (simp add: node_candidates_spec)
    then show ?thesis using True Cons.IH [OF rest] by simp
  next
    case False
    with Cons.prems have rest: "list_all texts_readable (filter is_object nodes)" by simp
    show ?thesis using False Cons.IH [OF rest] by (simp add: node_candidates_skip)
  qed
qed

lemma cleaned_nonempty: "c \<in> set (cleaned_candidates jp candidates) \<Longrightarrow> c \<noteq> []"
  by (auto simp: cleaned_candidates_def)

lemma pickBestString_truthy: "truthy (pickBestString jp candidates) = (pickBestString jp candidates \<noteq> None)"
proof (cases "cleaned_candidates jp candidates = []")
  case True
  then show ?thesis by (simp add: pickBestString_hd)
next
  case False
  then obtain i where "i < length (cleaned_candidates jp candidates)"
    and "hd (js_sort by_length_desc (cleaned_candidates jp candidates))
           = cleaned_candidates jp candidates ! i"
    using hd_js_sort_by_length [of "cleaned_candidates jp candidates"] by blast
  then have "hd (js_sort by_length_desc (cleaned_candidates jp candidates))
               \<in> set (cleaned_candidates jp candidates)"
    by simp
  then have "hd (js_sort by_length_desc (cleaned_candidates jp candidates)) \<noteq> []"
    by (rule cleaned_nonempty)
  with False show ?thesis by (simp add: pickBestString_hd)
qed

text \<open>
  C3, as the code has it. For every text that parses to an object or an array, when
  \<open>String\<close> returns for the class type and the title of every node it looks at, the
  extractor collects, over the object-valued nodes in order: \<open>inputs.positive\<close> when it is
  a string that is not empty after trimming; and, only when the node looks positive
  (class type or title contains \<open>positive\<close> in any case, or the title is \<open>Positive\<close>),
  \<open>inputs.text\<close> and \<open>inputs.prompt\<close>, each when it is a string that is not empty after
  trimming. The result is the \<open>pickBestString\<close> winner among them, normalized, and
  nothing when no candidate survives.
\<close>

theorem workflow_extractor_candidates:
  assumes "jp rawWorkflowString = Some graph"
    and "is_object graph"
    and "list_all texts_readable (filter is_object (object_values graph))"
  shows "workflow_candidates (object_values graph) [] =
           Inr (graph_candidates (\<lambda>s. trim s \<noteq> []) graph)
       \<and> extractFromRawWorkflow jp rawWorkflowString =
           Inr (map_option normalizePrompt
                  (pickBestString jp (graph_candidates (\<lambda>s. trim s \<noteq> []) graph)))"
proof -
  have p: "safeJsonParse jp rawWorkflowString = graph"
    using assms(1) by (simp add: safeJsonParse_def)
  have c: "workflow_candidates (object_values graph) [] =
             Inr (graph_candidates (\<lambda>s. trim s \<noteq> []) graph)"
    using workflow_candidates_spec [OF assms(3), of "[]"] by (simp add: graph_candidates_def)
  have "extractFromRawWorkflow jp rawWorkflowString =
          Inr (map_option normalizePrompt
                 (pickBestString jp (graph_candidates (\<lambda>s. trim s \<noteq> []) graph)))"
    using assms(2)
    by (auto simp: extractFromRawWorkflow_def p c Let_def pickBestString_truthy)
  with c show ?thesis by simp
qed

lemma scenario_2_parses:
  "json_parse scenario_2 =
     Some (JObj [(''3'', JObj [(''_meta'', JObj [(''title'', JStr ''Positive'')]),
                              (''inputs'', JObj [(''text'', JStr ''dog running, 4k, sharp'')])])])"
  by code_simp

theorem workflow_extractor_candidates_witness:
  "workflow_candidates
     [JObj [(''_meta'', JObj [(''title'', JStr ''Positive'')]),
           (''inputs'', JObj [(''text'', JStr ''dog running, 4k, sharp'')])]] []
     = Inr [''dog running, 4k, sharp'']
   \<and> extractFromRawWorkflow json_parse scenario_2 = Inr (Some ''dog running, 4k, sharp'')"
proof -
  let ?g = "JObj [(''3'', JObj [(''_meta'', JObj [(''title'', JStr ''Positive'')]),
                               (''inputs'', JObj [(''text'', JStr ''dog running, 4k, sharp'')])])]"
  have r: "list_all texts_readable (filter is_object (object_values ?g))"
    by code_simp
  have g: "graph_candidates (\<lambda>s. trim s \<noteq> []) ?g = [''dog running, 4k, sharp'']"
    by code_simp
  have b: "map_option normalizePrompt (pickBestString json_parse [''dog running, 4k, sharp''])
             = Some ''dog running, 4k, sharp''"
    by code_simp
  show ?thesis
    using workflow_extractor_candidates [of json_parse scenario_2 ?g] scenario_2_parses r
    by (simp add: g b)
qed

text \<open>
  C3 as it is stated fails at a node titled \<open>Positive\<close> whose \<open>inputs.text\<close> is one
  space: a non-empty string, which the extractor does not collect.
\<close>

theorem workflow_extractor_candidates_counterexample:
  "workflow_candidates (object_values blank_text_graph) [] = Inr []
   \<and> graph_candidates (\<lambda>s. s \<noteq> []) blank_text_graph = ['' '']"
  by code_simp

lemma trim_Nil: "trim [] = []"
  by (simp add: trim_def)

lemma blank_dropped_anyway:
  "filter (\<lambda>c. c \<noteq> []) (map trim (filter (\<lambda>s. trim s \<noteq> []) xs)) =
     filter (\<lambda>c. c \<noteq> []) (map trim xs)"
  by (induction xs) auto

lemma candidates_of_node_nonblank:
  "filter (\<lambda>s. trim s \<noteq> []) (candidates_of_node (\<lambda>s. s \<noteq> []) node) =
     candidates_of_node (\<lambda>s. trim s \<noteq> []) node"
proof -
  have "\<And>xs. filter (\<lambda>s. trim s \<noteq> []) (filter (\<lambda>s. s \<noteq> []) xs) = filter (\<lambda>s. trim s \<noteq> []) xs"
    by (auto simp: trim_Nil intro: filter_cong)
  then show ?thesis
    by (simp add: candidates_of_node_def)
qed

lemma graph_candidates_nonblank:
  "filter (\<lambda>s. trim s \<noteq> []) (graph_candidates (\<lambda>s. s \<noteq> []) graph) =
     graph_candidates (\<lambda>s. trim s \<noteq> []) graph"
  by (simp add: graph_candidates_def filter_concat comp_def candidates_of_node_nonblank)

text \<open>
  The blank strings that the claim as stated would collect never reach the result:
  \<open>pickBestString\<close> drops them.
\<close>

lemma blank_candidates_do_not_matter:
  "pickBestString jp (graph_candidates (\<lambda>s. s \<noteq> []) graph) =
     pickBestString jp (graph_candidates (\<lambda>s. trim s \<noteq> []) graph)"
proof -
  have "cleaned_candidates jp (graph_candidates (\<lambda>s. s \<noteq> []) graph) =
          cleaned_candidates jp (graph_candidates (\<lambda>s. trim s \<noteq> []) graph)"
    unfolding cleaned_candidates_def graph_candidates_nonblank [symmetric] blank_dropped_anyway
    by (rule refl)
  then show ?thesis by (simp add: pickBestString_def)
qed

text \<open>
  Where \<open>String\<close> does not return: a class type that is an object with a property
  \<open>toString\<close> makes the extractor throw.
\<close>

lemma toString_class_type_throws:
  "extractFromRawWorkflow json_parse toString_graph = Inl TypeError"
  by code_simp

section \<open>Properties of the chunk reader\<close>

lemma base256_digits:
  assumes "n < 4294967296"
  shows "((n div 256 div 256 div 256 mod 256 * 256 + n div 256 div 256 mod 256) * 256
           + n div 256 mod 256) * 256 + n mod 256 = (n::nat)"
proof -
  define a where "a = n div 256"
  define b where "b = a div 256"
  define c where "c = b div 256"
  have 1: "a * 256 + n mod 256 = n" by (simp add: a_def)
  have 2: "b * 256 + a mod 256 = a" by (simp add: b_def)
  have 3: "c * 256 + b mod 256 = b" by (simp add: c_def)
  have "a < 16777216" using assms by (simp add: a_def less_mult_imp_div_less)
  then have "b < 65536" by (simp add: b_def less_mult_imp_div_less)
  then have "c < 256" by (simp add: c_def less_mult_imp_div_less)
  then have 4: "c mod 256 = c" by simp
  have "((c mod 256 * 256 + b mod 256) * 256 + a mod 256) * 256 + n mod 256 = n"
    by (simp only: 4 3 2 1)
  then show ?thesis by (simp only: a_def b_def c_def)
qed

lemma foldl_u32be:
  assumes "n < 4294967296"
  shows "foldl (\<lambda>n b. n * 256 + unat b) 0 (u32be n) = n"
  using base256_digits [OF assms] by (simp add: u32be_def unat_of_nat)

lemma length_u32be: "length (u32be n) = 4"
  by (simp add: u32be_def)

lemma length_encode_chunk:
  "well_formed_chunk c \<Longrightarrow> length (encode_chunk c) = 12 + length (chunk_data c)"
  by (simp add: encode_chunk_def well_formed_chunk_def length_u32be)

lemma bytesEqual_iff: "bytesEqual a b \<longleftrightarrow> a = b"
proof
  assume "bytesEqual a b"
  then have l: "length a = length b" and "list_all (\<lambda>i. a ! i = b ! i) [0..<length a]"
    by (simp_all add: bytesEqual_def split: if_splits)
  then have "\<And>i. i < length a \<Longrightarrow> a ! i = b ! i"
    by (simp add: list_all_iff)
  with l show "a = b" by (rule nth_equalityI)
next
  assume "a = b"
  then show "bytesEqual a b" by (simp add: bytesEqual_def list_all_iff)
qed

lemma slice_0: "slice xs 0 n = take n xs"
  by (simp add: slice_def)

lemma slice_middle:
  "slice (pre @ xs @ post) (length pre) (length pre + length xs) = xs"
  by (simp add: slice_def)

lemma slice_shift: "slice (pre @ xs) (length pre + a) (length pre + b) = slice xs a b"
  by (simp add: slice_def)

lemma readU32BE_shift: "readU32BE (pre @ xs) (length pre) = readU32BE xs 0"
  using slice_shift [of pre xs 0 4] by (simp add: readU32BE_def)

lemma chunk_header:
  assumes "well_formed_chunk c"
  shows "readU32BE (encode_chunk c @ post) 0 = length (chunk_data c)"
    and "slice (encode_chunk c @ post) 4 8 = type_code c"
    and "slice (encode_chunk c @ post) 8 (8 + length (chunk_data c)) = chunk_data c"
proof -
  have n: "length (chunk_data c) < 4294967296" and t: "length (type_code c) = 4"
    using assms by (simp_all add: well_formed_chunk_def)
  have "slice (encode_chunk c @ post) 0 4 = u32be (length (chunk_data c))"
    by (simp add: slice_def encode_chunk_def length_u32be)
  then show "readU32BE (encode_chunk c @ post) 0 = length (chunk_data c)"
    by (simp add: readU32BE_def foldl_u32be [OF n])
  show "slice (encode_chunk c @ post) 4 8 = type_code c"
    by (simp add: slice_def encode_chunk_def length_u32be t)
  show "slice (encode_chunk c @ post) 8 (8 + length (chunk_data c)) = chunk_data c"
    by (simp add: slice_def encode_chunk_def length_u32be t)
qed

lemma scan_step:
  assumes "well_formed_chunk c"
  shows "scan_chunks pf (pre @ encode_chunk c @ post) (length pre) acc =
           (if is_IEND c then acc
            else scan_chunks pf (pre @ encode_chunk c @ post)
                   (length pre + length (encode_chunk c)) (push acc (decode_chunk pf c)))"
proof -
  let ?bytes = "pre @ encode_chunk c @ post"
  let ?n = "length (chunk_data c)"
  have len: "length ?bytes = length pre + (12 + ?n) + length post"
    by (simp add: length_encode_chunk [OF assms])
  have r: "readU32BE ?bytes (length pre) = ?n"
    by (simp only: readU32BE_shift chunk_header(1) [OF assms])
  have t: "slice ?bytes (length pre + 4) (length pre + 8) = type_code c"
    by (simp only: slice_shift chunk_header(2) [OF assms])
  have d: "slice ?bytes (length pre + 8) (length pre + 8 + ?n) = chunk_data c"
    using slice_shift [of pre "encode_chunk c @ post" 8 "8 + ?n"]
    by (simp add: chunk_header(3) [OF assms] add.assoc)
  have e: "length pre + 8 + ?n + 4 = length pre + length (encode_chunk c)"
    by (simp add: length_encode_chunk [OF assms])
  show ?thesis
    apply (subst scan_chunks.simps)
    apply (simp only: Let_def r t d e)
    apply (simp add: len length_encode_chunk [OF assms] is_IEND_def decode_chunk_def push_def)
    done
qed


lemma push_append: "push acc x @ ys = acc @ (case x of Some c \<Rightarrow> c # ys | None \<Rightarrow> ys)"
  by (simp add: push_def split: option.splits)

lemma text_chunks_Cons:
  "text_chunks_before_IEND pf (c # cs) =
     (if is_IEND c then []
      else (case decode_chunk pf c of
              Some x \<Rightarrow> x # text_chunks_before_IEND pf cs
            | None \<Rightarrow> text_chunks_before_IEND pf cs))"
  by (simp add: text_chunks_before_IEND_def List.map_filter_simps split: option.splits)

lemma text_chunks_Nil: "text_chunks_before_IEND pf [] = []"
  by (simp add: text_chunks_before_IEND_def List.map_filter_simps)

lemma encode_chunks_Cons: "encode_chunks (c # cs) = encode_chunk c @ encode_chunks cs"
  by (simp add: encode_chunks_def)

lemma encode_chunks_Nil: "encode_chunks [] = []"
  by (simp add: encode_chunks_def)

lemma scan_encoded:
  assumes "list_all well_formed_chunk cs"
  shows "scan_chunks pf (pre @ encode_chunks cs @ rest) (length pre) acc =
           (if list_ex is_IEND cs then acc @ text_chunks_before_IEND pf cs
            else scan_chunks pf (pre @ encode_chunks cs @ rest)
                   (length pre + length (encode_chunks cs))
                   (acc @ text_chunks_before_IEND pf cs))"
  using assms
proof (induction cs arbitrary: pre acc)
  case Nil
  then show ?case by (simp add: encode_chunks_Nil text_chunks_Nil)
next
  case (Cons c cs)
  then have wf: "well_formed_chunk c" and rest: "list_all well_formed_chunk cs"
    by simp_all
  let ?bytes = "pre @ encode_chunks (c # cs) @ rest"
  have b1: "?bytes = pre @ encode_chunk c @ (encode_chunks cs @ rest)"
    by (simp add: encode_chunks_Cons)
  have b2: "?bytes = (pre @ encode_chunk c) @ encode_chunks cs @ rest"
    by (simp add: encode_chunks_Cons)
  show ?case
  proof (cases "is_IEND c")
    case True
    have "scan_chunks pf ?bytes (length pre) acc = acc"
      unfolding b1 using scan_step [OF wf, of pf pre "encode_chunks cs @ rest" acc] True
      by simp
    then show ?thesis using True by (simp add: text_chunks_Cons)
  next
    case False
    have "scan_chunks pf ?bytes (length pre) acc =
            scan_chunks pf ?bytes (length pre + length (encode_chunk c))
              (push acc (decode_chunk pf c))"
      unfolding b1 using scan_step [OF wf, of pf pre "encode_chunks cs @ rest" acc] False
      by simp
    also have "\<dots> = scan_chunks pf ((pre @ encode_chunk c) @ encode_chunks cs @ rest)
                        (length (pre @ encode_chunk c)) (push acc (decode_chunk pf c))"
      unfolding b2 by simp
    also have "\<dots> =
        (if list_ex is_IEND cs
         then push acc (decode_chunk pf c) @ text_chunks_before_IEND pf cs
         else scan_chunks pf ((pre @ encode_chunk c) @ encode_chunks cs @ rest)
                (length (pre @ encode_chunk c) + length (encode_chunks cs))
                (push acc (decode_chunk pf c) @ text_chunks_before_IEND pf cs))"
      by (rule Cons.IH [OF rest])
    finally show ?thesis
      using False
      by (simp add: text_chunks_Cons push_append encode_chunks_Cons add.assoc
               split: option.splits)
  qed
qed

lemma scan_end: "length bytes < offset + 8 \<Longrightarrow> scan_chunks pf bytes offset acc = acc"
  by (subst scan_chunks.simps) simp

lemma scan_truncated:
  "offset + 8 \<le> length bytes \<Longrightarrow> length bytes < offset + 8 + readU32BE bytes offset + 4
     \<Longrightarrow> scan_chunks pf bytes offset acc = acc"
  by (subst scan_chunks.simps) (simp add: Let_def)

lemma signature_accepted:
  "extractPngTextChunks pf (PNG_SIGNATURE @ rest) = Inr (scan_chunks pf (PNG_SIGNATURE @ rest) 8 [])"
  by (simp add: extractPngTextChunks_def bytesEqual_iff slice_0) (simp add: PNG_SIGNATURE_def)

lemma length_signature: "length PNG_SIGNATURE = 8"
  by (simp add: PNG_SIGNATURE_def)

lemma extract_encoded:
  assumes "list_all well_formed_chunk cs"
  shows "extractPngTextChunks pf (PNG_SIGNATURE @ encode_chunks cs) =
           Inr (text_chunks_before_IEND pf cs)"
proof -
  have "scan_chunks pf (PNG_SIGNATURE @ encode_chunks cs @ []) (length PNG_SIGNATURE) [] =
          text_chunks_before_IEND pf cs"
    unfolding scan_encoded [OF assms]
    by (simp add: scan_end)
  then show ?thesis
    by (simp add: signature_accepted length_signature)
qed

lemma no_IEND_all_chunks:
  "\<not> list_ex is_IEND cs \<Longrightarrow> text_chunks_before_IEND pf cs = List.map_filter (decode_chunk pf) cs"
proof -
  assume "\<not> list_ex is_IEND cs"
  then have "takeWhile (\<lambda>c. \<not> is_IEND c) cs = cs"
    by (simp add: list_ex_iff takeWhile_eq_all_conv)
  then show ?thesis
    unfolding text_chunks_before_IEND_def by (rule arg_cong)
qed

lemma extract_truncated:
  assumes "list_all well_formed_chunk cs" and "\<not> list_ex is_IEND cs"
    and "truncated_chunk rest"
  shows "extractPngTextChunks pf (PNG_SIGNATURE @ encode_chunks cs @ rest) =
           Inr (List.map_filter (decode_chunk pf) cs)"
proof -
  let ?bytes = "PNG_SIGNATURE @ encode_chunks cs @ rest"
  let ?off = "length PNG_SIGNATURE + length (encode_chunks cs)"
  have r: "readU32BE ?bytes ?off = readU32BE rest 0"
    using readU32BE_shift [of "PNG_SIGNATURE @ encode_chunks cs" rest] by simp
  have "scan_chunks pf ?bytes ?off (text_chunks_before_IEND pf cs) = text_chunks_before_IEND pf cs"
    using assms(3) by (intro scan_truncated) (simp_all add: r truncated_chunk_def)
  then have "scan_chunks pf ?bytes (length PNG_SIGNATURE) [] = text_chunks_before_IEND pf cs"
    unfolding scan_encoded [OF assms(1)] using assms(2) by simp
  then show ?thesis
    using signature_accepted [of pf "encode_chunks cs @ rest"]
    by (simp add: length_signature no_IEND_all_chunks [OF assms(2)])
qed

text \<open>
  C5. The chunk reader fails with the format error exactly when the buffer is shorter
  than 8 bytes or does not begin with the PNG signature; every other buffer gives a list
  of chunks. A header whose declared data and trailer go beyond the end of the buffer
  ends the scan without an error: the chunks read before it are the result.
\<close>

theorem chunk_reader_failure:
  "(extractPngTextChunks pf bytes = Inl FormatError
      \<longleftrightarrow> length bytes < 8 \<or> take 8 bytes \<noteq> PNG_SIGNATURE)
   \<and> (\<not> (length bytes < 8 \<or> take 8 bytes \<noteq> PNG_SIGNATURE)
        \<longrightarrow> (\<exists>chunks. extractPngTextChunks pf bytes = Inr chunks))
   \<and> (list_all well_formed_chunk cs \<and> \<not> list_ex is_IEND cs \<and> truncated_chunk rest
        \<longrightarrow> extractPngTextChunks pf (PNG_SIGNATURE @ encode_chunks cs @ rest) =
              Inr (List.map_filter (decode_chunk pf) cs))"
proof (intro conjI impI)
  show "extractPngTextChunks pf bytes = Inl FormatError
          \<longleftrightarrow> length bytes < 8 \<or> take 8 bytes \<noteq> PNG_SIGNATURE"
    by (simp add: extractPngTextChunks_def bytesEqual_iff slice_0)
  show "\<exists>chunks. extractPngTextChunks pf bytes = Inr chunks"
    if "\<not> (length bytes < 8 \<or> take 8 bytes \<noteq> PNG_SIGNATURE)"
    using that by (simp add: extractPngTextChunks_def bytesEqual_iff slice_0)
  show "extractPngTextChunks pf (PNG_SIGNATURE @ encode_chunks cs @ rest) =
          Inr (List.map_filter (decode_chunk pf) cs)"
    if "list_all well_formed_chunk cs \<and> \<not> list_ex is_IEND cs \<and> truncated_chunk rest"
    using that by (simp add: extract_truncated)
qed

lemma text_chunk_well_formed: "list_all well_formed_chunk [text_chunk]"
  by (simp add: well_formed_chunk_def text_chunk_def ascii_def)

lemma text_chunk_no_IEND: "\<not> list_ex is_IEND [text_chunk]"
  by code_simp

lemma cut_header_truncated: "truncated_chunk cut_header"
  by code_simp

lemma text_chunk_decoded:
  "List.map_filter (decode_chunk toy_platform) [text_chunk] =
     [\<lparr>chunk_type = tEXt, chunk_keyword = ''k'', chunk_text = ''hi''\<rparr>]"
  by code_simp

theorem chunk_reader_failure_witness:
  "extractPngTextChunks toy_platform [137, 80, 78] = Inl FormatError
   \<and> truncated_chunk cut_header
   \<and> extractPngTextChunks toy_platform (PNG_SIGNATURE @ encode_chunks [text_chunk] @ cut_header) =
       Inr [\<lparr>chunk_type = tEXt, chunk_keyword = ''k'', chunk_text = ''hi''\<rparr>]"
proof -
  note t = chunk_reader_failure [of toy_platform "[137, 80, 78]" "[text_chunk]" cut_header]
  have short: "length [137, 80, 78 :: byte] < 8 \<or> take 8 [137, 80, 78] \<noteq> PNG_SIGNATURE"
    by simp
  have a: "extractPngTextChunks toy_platform [137, 80, 78] = Inl FormatError"
    using t [THEN conjunct1] short by (rule iffD2)
  have "extractPngTextChunks toy_platform (PNG_SIGNATURE @ encode_chunks [text_chunk] @ cut_header) =
          Inr (List.map_filter (decode_chunk toy_platform) [text_chunk])"
    by (rule mp [OF t [THEN conjunct2, THEN conjunct2]])
       (intro conjI text_chunk_well_formed text_chunk_no_IEND cut_header_truncated)
  then have c: "extractPngTextChunks toy_platform
                  (PNG_SIGNATURE @ encode_chunks [text_chunk] @ cut_header) =
                Inr [\<lparr>chunk_type = tEXt, chunk_keyword = ''k'', chunk_text = ''hi''\<rparr>]"
    unfolding text_chunk_decoded .
  from a cut_header_truncated c show ?thesis by (intro conjI)
qed

text \<open>
  C6. For a signature followed by well-formed chunks, the reader returns the chunks of
  type \<open>tEXt\<close>, \<open>zTXt\<close> and \<open>iTXt\<close> that decode, in the order of the stream, and only those
  before the first \<open>IEND\<close>: a chunk of another type is not decoded, a text chunk that does
  not decode is left out, and whatever follows an \<open>IEND\<close> is ignored.
\<close>

theorem text_chunks_in_stream_order:
  assumes "list_all well_formed_chunk cs"
  shows "extractPngTextChunks pf (PNG_SIGNATURE @ encode_chunks cs) =
           Inr (List.map_filter (decode_chunk pf) (takeWhile (\<lambda>c. \<not> is_IEND c) cs))
       \<and> (list_ex is_IEND cs \<longrightarrow>
            extractPngTextChunks pf (PNG_SIGNATURE @ encode_chunks cs @ rest) =
              Inr (List.map_filter (decode_chunk pf) (takeWhile (\<lambda>c. \<not> is_IEND c) cs)))"
proof
  show "extractPngTextChunks pf (PNG_SIGNATURE @ encode_chunks cs) =
          Inr (List.map_filter (decode_chunk pf) (takeWhile (\<lambda>c. \<not> is_IEND c) cs))"
    using extract_encoded [OF assms] by (simp add: text_chunks_before_IEND_def)
  show "list_ex is_IEND cs \<longrightarrow>
          extractPngTextChunks pf (PNG_SIGNATURE @ encode_chunks cs @ rest) =
            Inr (List.map_filter (decode_chunk pf) (takeWhile (\<lambda>c. \<not> is_IEND c) cs))"
  proof
    assume "list_ex is_IEND cs"
    then have "scan_chunks pf (PNG_SIGNATURE @ encode_chunks cs @ rest) (length PNG_SIGNATURE) [] =
                 text_chunks_before_IEND pf cs"
      unfolding scan_encoded [OF assms] by simp
    then show "extractPngTextChunks pf (PNG_SIGNATURE @ encode_chunks cs @ rest) =
                 Inr (List.map_filter (decode_chunk pf) (takeWhile (\<lambda>c. \<not> is_IEND c) cs))"
      using signature_accepted [of pf "encode_chunks cs @ rest"]
      by (simp add: length_signature text_chunks_before_IEND_def)
  qed
qed

lemma example_stream_well_formed: "list_all well_formed_chunk example_stream"
  by (simp add: well_formed_chunk_def example_stream_def text_chunk_def gamma_chunk_def
        no_separator_chunk_def end_chunk_def ascii_def)

lemma example_stream_has_IEND: "list_ex is_IEND example_stream"
  by code_simp

lemma example_stream_decoded:
  "List.map_filter (decode_chunk toy_platform) (takeWhile (\<lambda>c. \<not> is_IEND c) example_stream) =
     [\<lparr>chunk_type = tEXt, chunk_keyword = ''k'', chunk_text = ''hi''\<rparr>]"
  by code_simp

theorem text_chunks_in_stream_order_witness:
  "list_all well_formed_chunk example_stream
   \<and> extractPngTextChunks toy_platform (PNG_SIGNATURE @ encode_chunks example_stream) =
       Inr [\<lparr>chunk_type = tEXt, chunk_keyword = ''k'', chunk_text = ''hi''\<rparr>]
   \<and> extractPngTextChunks toy_platform (PNG_SIGNATURE @ encode_chunks example_stream @ [1, 2, 3]) =
       Inr [\<lparr>chunk_type = tEXt, chunk_keyword = ''k'', chunk_text = ''hi''\<rparr>]"
proof -
  note t = text_chunks_in_stream_order [OF example_stream_well_formed, of toy_platform "[1, 2, 3]"]
  have a: "extractPngTextChunks toy_platform (PNG_SIGNATURE @ encode_chunks example_stream) =
             Inr [\<lparr>chunk_type = tEXt, chunk_keyword = ''k'', chunk_text = ''hi''\<rparr>]"
    using t [THEN conjunct1] unfolding example_stream_decoded .
  have b: "extractPngTextChunks toy_platform
             (PNG_SIGNATURE @ encode_chunks example_stream @ [1, 2, 3]) =
           Inr [\<lparr>chunk_type = tEXt, chunk_keyword = ''k'', chunk_text = ''hi''\<rparr>]"
    using mp [OF t [THEN conjunct2] example_stream_has_IEND]
    unfolding example_stream_decoded .
  from example_stream_well_formed a b show ?thesis by (intro conjI)
qed

lemma findNullByte_separator:
  assumes "0 \<notin> set kw"
  shows "findNullByte (pre @ kw @ 0 # xs) (length pre) = Some (length pre + length kw)"
proof -
  have "takeWhile (\<lambda>b. b \<noteq> 0) (kw @ 0 # xs) = kw"
    using assms by (induction kw) auto
  then show ?thesis by (simp add: findNullByte_def list_ex_iff)
qed

lemma findNullByte_first:
  "0 \<notin> set kw \<Longrightarrow> findNullByte (kw @ 0 # xs) 0 = Some (length kw)"
  using findNullByte_separator [of kw "[]" xs] by simp

lemma inflateZlib_first_success:
  "inflateZlib pf d = first_success [stream_deflate pf, stream_deflate_raw pf] d"
  by (simp add: inflateZlib_def split: option.splits)

lemma parse_zTXt_layout:
  assumes "0 \<notin> set kw"
  shows "parse_zTXt pf (zTXt_data kw payload) =
           map_option (\<lambda>out. \<lparr>chunk_type = zTXt, chunk_keyword = decodeLatin1 kw,
                               chunk_text = decodeUTF8 pf out\<rparr>)
             (inflateZlib pf payload)"
  using findNullByte_first [OF assms, of "0 # payload"]
  by (simp add: parse_zTXt_def zTXt_data_def byte_at_def nth_append slice_def
           split: option.splits)

lemma parse_iTXt_layout:
  assumes "0 \<notin> set kw" and "0 \<notin> set lang" and "0 \<notin> set translated"
  shows "parse_iTXt pf (iTXt_data kw 1 0 lang translated payload) =
           map_option (\<lambda>out. \<lparr>chunk_type = iTXt, chunk_keyword = decodeLatin1 kw,
                               chunk_text = decodeUTF8 pf out\<rparr>)
             (inflateZlib pf payload)"
proof -
  let ?data = "iTXt_data kw 1 0 lang translated payload"
  have k: "findNullByte ?data 0 = Some (length kw)"
    using findNullByte_first [OF assms(1)] by (simp add: iTXt_data_def)
  have d1: "?data = (kw @ [0, 1, 0]) @ lang @ 0 # (translated @ [0] @ payload)"
    by (simp add: iTXt_data_def)
  have n1: "length (kw @ [0, 1, 0]) = length kw + 3"
    by simp
  have l: "findNullByte ?data (length kw + 3) = Some (length kw + 3 + length lang)"
    unfolding d1 n1 [symmetric] by (rule findNullByte_separator [OF assms(2)])
  have d2: "?data = (kw @ [0, 1, 0] @ lang @ [0]) @ translated @ 0 # payload"
    by (simp add: iTXt_data_def)
  have n2: "length (kw @ [0, 1, 0] @ lang @ [0]) = length kw + 3 + length lang + 1"
    by simp
  have t: "findNullByte ?data (length kw + 3 + length lang + 1) =
             Some (length kw + 3 + length lang + 1 + length translated)"
    unfolding d2 n2 [symmetric] by (rule findNullByte_separator [OF assms(3)])
  have f: "byte_at ?data (length kw + 1) = Some 1" "byte_at ?data (length kw + 2) = Some 0"
    by (simp_all add: byte_at_def iTXt_data_def nth_append)
  have d3: "?data = (kw @ [0, 1, 0] @ lang @ [0] @ translated @ [0]) @ payload"
    by (simp add: iTXt_data_def)
  have n3: "length (kw @ [0, 1, 0] @ lang @ [0] @ translated @ [0]) =
              length kw + 3 + length lang + 1 + length translated + 1"
    by simp
  have p: "drop (length kw + 3 + length lang + 1 + length translated + 1) ?data = payload"
    unfolding d3 n3 [symmetric] by (rule append_eq_conv_conj [THEN iffD1, OF refl, THEN conjunct2, symmetric])
  have s: "slice ?data 0 (length kw) = kw"
    by (simp add: slice_def iTXt_data_def)
  show ?thesis
    unfolding parse_iTXt_def k l t f p s option.case Let_def
    by (simp split: option.splits)
qed


lemma decode_zTXt:
  assumes "0 \<notin> set kw" and "decodeLatin1 (type_code c) = ''zTXt''"
    and "chunk_data c = zTXt_data kw payload"
  shows "decode_chunk pf c =
           map_option (\<lambda>out. \<lparr>chunk_type = zTXt, chunk_keyword = decodeLatin1 kw,
                               chunk_text = decodeUTF8 pf out\<rparr>)
             (inflateZlib pf payload)"
  using assms(2,3) by (simp add: decode_chunk_def parse_zTXt_layout [OF assms(1)])

lemma decode_iTXt:
  assumes "0 \<notin> set kw" and "0 \<notin> set lang" and "0 \<notin> set translated"
    and "decodeLatin1 (type_code c) = ''iTXt''"
    and "chunk_data c = iTXt_data kw 1 0 lang translated payload"
  shows "decode_chunk pf c =
           map_option (\<lambda>out. \<lparr>chunk_type = iTXt, chunk_keyword = decodeLatin1 kw,
                               chunk_text = decodeUTF8 pf out\<rparr>)
             (inflateZlib pf payload)"
  using assms(4,5) by (simp add: decode_chunk_def parse_iTXt_layout [OF assms(1-3)])

lemma dropped_chunk:
  assumes "decode_chunk pf c = None" and "\<not> is_IEND c"
  shows "text_chunks_before_IEND pf (before @ c # after) =
           text_chunks_before_IEND pf (before @ after)"
  using assms
  by (induction before) (simp_all add: text_chunks_Cons split: option.splits)

text \<open>
  C7. For a \<open>zTXt\<close> chunk, and for an \<open>iTXt\<close> chunk with compression flag 1, the payload is
  inflated as a zlib stream first and as a raw stream only when that fails, the first
  success being the text of the chunk. When both fail, that chunk alone is dropped: the
  reader returns what it returns for the stream without it, and no error.
\<close>

theorem decompression_fallback:
  assumes "0 \<notin> set kw" and "0 \<notin> set lang" and "0 \<notin> set translated"
    and "list_all well_formed_chunk (before @ c # after)"
    and "decodeLatin1 (type_code c) = ''zTXt'' \<and> chunk_data c = zTXt_data kw payload
         \<or> decodeLatin1 (type_code c) = ''iTXt''
            \<and> chunk_data c = iTXt_data kw 1 0 lang translated payload"
  shows "inflateZlib pf payload = first_success [stream_deflate pf, stream_deflate_raw pf] payload
       \<and> (case inflateZlib pf payload of
            Some out \<Rightarrow>
              map_option chunk_text (decode_chunk pf c) = Some (decodeUTF8 pf out)
              \<and> map_option chunk_keyword (decode_chunk pf c) = Some (decodeLatin1 kw)
          | None \<Rightarrow>
              decode_chunk pf c = None
              \<and> extractPngTextChunks pf (PNG_SIGNATURE @ encode_chunks (before @ c # after)) =
                  Inr (text_chunks_before_IEND pf (before @ after))
              \<and> extractPngTextChunks pf (PNG_SIGNATURE @ encode_chunks (before @ after)) =
                  Inr (text_chunks_before_IEND pf (before @ after)))"
proof -
  have d: "decode_chunk pf c =
             map_option (\<lambda>out. \<lparr>chunk_type = (if decodeLatin1 (type_code c) = ''zTXt'' then zTXt else iTXt),
                                 chunk_keyword = decodeLatin1 kw,
                                 chunk_text = decodeUTF8 pf out\<rparr>)
               (inflateZlib pf payload)"
    using assms(5) decode_zTXt [OF assms(1), of c payload pf]
      decode_iTXt [OF assms(1-3), of c payload pf]
    by auto
  have n: "\<not> is_IEND c"
    using assms(5) by (auto simp: is_IEND_def)
  have wf: "list_all well_formed_chunk (before @ after)"
    using assms(4) by simp
  show ?thesis
  proof (cases "inflateZlib pf payload")
    case None
    then have "decode_chunk pf c = None" using d by simp
    then show ?thesis
      using None extract_encoded [OF assms(4), of pf] extract_encoded [OF wf, of pf]
        dropped_chunk [of pf c before after] n
      by (simp add: inflateZlib_first_success)
  next
    case (Some out)
    then show ?thesis using d by (simp add: inflateZlib_first_success)
  qed
qed

lemma broken_chunk_type: "decodeLatin1 (type_code broken_chunk) = ''zTXt''"
  by code_simp

lemma broken_chunk_data: "chunk_data broken_chunk = zTXt_data (ascii ''b'') [1, 2, 3]"
  by (simp add: broken_chunk_def)

lemma broken_stream_well_formed:
  "list_all well_formed_chunk ([text_chunk] @ broken_chunk # [framed_chunk, raw_stream_chunk])"
  by (simp add: well_formed_chunk_def text_chunk_def broken_chunk_def framed_chunk_def
        raw_stream_chunk_def ascii_def zTXt_data_def iTXt_data_def)

lemma broken_payload_fails: "inflateZlib toy_platform [1, 2, 3] = None"
  by (simp add: inflateZlib_def toy_platform_def)

lemma remaining_chunks_decoded:
  "text_chunks_before_IEND toy_platform ([text_chunk] @ [framed_chunk, raw_stream_chunk]) =
     [\<lparr>chunk_type = tEXt, chunk_keyword = ''k'', chunk_text = ''hi''\<rparr>,
      \<lparr>chunk_type = zTXt, chunk_keyword = ''z'', chunk_text = ''framed''\<rparr>,
      \<lparr>chunk_type = iTXt, chunk_keyword = ''i'', chunk_text = ''raw''\<rparr>]"
  by code_simp

theorem decompression_fallback_witness:
  "inflateZlib toy_platform [1, 2, 3] = None
   \<and> extractPngTextChunks toy_platform
        (PNG_SIGNATURE
         @ encode_chunks ([text_chunk] @ broken_chunk # [framed_chunk, raw_stream_chunk])) =
       Inr [\<lparr>chunk_type = tEXt, chunk_keyword = ''k'', chunk_text = ''hi''\<rparr>,
            \<lparr>chunk_type = zTXt, chunk_keyword = ''z'', chunk_text = ''framed''\<rparr>,
            \<lparr>chunk_type = iTXt, chunk_keyword = ''i'', chunk_text = ''raw''\<rparr>]"
proof -
  have k: "0 \<notin> set (ascii ''b'')" "0 \<notin> set ([] :: byte list)"
    by (simp_all add: ascii_def)
  note t = decompression_fallback [of "ascii ''b''" "[]" "[]" "[text_chunk]" broken_chunk
      "[framed_chunk, raw_stream_chunk]" "[1, 2, 3]" toy_platform,
      OF k(1) k(2) k(2) broken_stream_well_formed]
  have "extractPngTextChunks toy_platform
          (PNG_SIGNATURE
           @ encode_chunks ([text_chunk] @ broken_chunk # [framed_chunk, raw_stream_chunk])) =
        Inr (text_chunks_before_IEND toy_platform ([text_chunk] @ [framed_chunk, raw_stream_chunk]))"
    using t broken_chunk_type broken_chunk_data by (simp add: broken_payload_fails)
  then show ?thesis
    unfolding remaining_chunks_decoded using broken_payload_fails by (intro conjI)
qed

section \<open>The examples of the specification\<close>

lemma wrapper_examples:
  "isPromptWrapperJson json_parse ''{\"prompt\":\"x\"}''"
  "\<not> isPromptWrapperJson json_parse ''{\"prompt\":\"x\",\"other\":1}''"
  "\<not> isPromptWrapperJson json_parse ''{\"foo\":\"x\"}''"
  by code_simp+

lemma scenario_1_result:
  "extractPositivePromptFromTextBlobs json_parse [scenario_1] =
     Inr \<lparr>prompt = Some ''a cat sitting on a wall'', debugSource = Some ''metadata-json''\<rparr>"
  by code_simp

lemma scenario_4_result:
  "extractPositivePromptFromTextBlobs json_parse [scenario_4] =
     Inr \<lparr>prompt = None, debugSource = None\<rparr>"
  by code_simp

lemma scenario_5_result:
  "normalizePrompt scenario_5 = ''first line'' @ [CHR 0x0A] @ ''second line''"
  by code_simp

end
